theory Spec2Isabelle
  imports Main "HOL-Library.Word" "HOL-Library.Sublist"
begin

section \<open>Data model (types.ts)\<close>

text \<open>
  A \<open>Buffer\<close> is a sequence of bytes. Timestamps (\<open>Date\<close>, \<open>Date.now()\<close>) are
  milliseconds since the epoch, an integer. A JavaScript \<open>Map\<close> that the code enumerates
  is an association list in insertion order; \<open>Map.set\<close> on a key that is already there
  replaces the entry where it stands.
\<close>

type_synonym byte = "8 word"

type_synonym buffer = "byte list"

record StoredFile =
  file_id :: string
  file_name :: string
  file_data :: buffer
  file_size :: nat
  file_createdAt :: int

record Session =
  session_id :: string
  session_files :: "(string \<times> StoredFile) list"
  session_createdAt :: int
  session_lastAccessedAt :: int

text \<open>
  The metadata of a file as the Redis backend stores it, and what the code takes from
  the runtime to print and read dates and JSON: \<open>Date.toISOString\<close>, \<open>new Date(text)\<close>,
  \<open>JSON.stringify\<close> and \<open>JSON.parse\<close> (\<open>None\<close> where it throws) on that metadata. They are
  a parameter of the model.
\<close>

record FileMetadata =
  meta_name :: string
  meta_size :: nat
  meta_createdAt :: string

record codec =
  toISOString :: "int \<Rightarrow> string"
  parseDate :: "string \<Rightarrow> int"
  JSON_stringify :: "FileMetadata \<Rightarrow> string"
  JSON_parse :: "string \<Rightarrow> FileMetadata option"

fun map_set :: "'k \<Rightarrow> 'v \<Rightarrow> ('k \<times> 'v) list \<Rightarrow> ('k \<times> 'v) list" where
  "map_set k v [] = [(k, v)]"
| "map_set k v (p # ps) = (if fst p = k then (k, v) # ps else p # map_set k v ps)"

fun map_get :: "('k \<times> 'v) list \<Rightarrow> 'k \<Rightarrow> 'v option" where
  "map_get [] k = None"
| "map_get (p # ps) k = (if fst p = k then Some (snd p) else map_get ps k)"

section \<open>MemoryStorage (storage.ts)\<close>

text \<open>
  The store is the \<open>sessions\<close> map. Every operation takes \<open>ttl\<close>, the configured
  \<open>sessionExpiryMs\<close>, and \<open>now\<close>, the clock reading of the call (one instant per store
  operation), and returns the store it leaves behind together with its result. An
  identifier drawn from \<open>nanoid()\<close> is an argument of the operation that draws it.
\<close>

type_synonym MemoryStorage = "string \<Rightarrow> Session option"

definition isSessionValid :: "int \<Rightarrow> MemoryStorage \<Rightarrow> int \<Rightarrow> string \<Rightarrow> bool" where
  "isSessionValid ttl st now sessionId =
     (case st sessionId of
        None \<Rightarrow> False
      | Some session \<Rightarrow> now - session_lastAccessedAt session < ttl)"

definition createSession :: "MemoryStorage \<Rightarrow> int \<Rightarrow> string \<Rightarrow> MemoryStorage \<times> string" where
  "createSession st now new_id =
     (st(new_id \<mapsto> \<lparr>session_id = new_id, session_files = [],
                      session_createdAt = now, session_lastAccessedAt = now\<rparr>),
      new_id)"

definition getSession ::
  "int \<Rightarrow> MemoryStorage \<Rightarrow> int \<Rightarrow> string \<Rightarrow> MemoryStorage \<times> Session option" where
  "getSession ttl st now sessionId =
     (case st sessionId of
        None \<Rightarrow> (st, None)
      | Some session \<Rightarrow>
          if \<not> isSessionValid ttl st now sessionId then (st(sessionId := None), None)
          else (let touched = session\<lparr>session_lastAccessedAt := now\<rparr>
                in (st(sessionId \<mapsto> touched), Some touched)))"

definition addFile ::
  "int \<Rightarrow> MemoryStorage \<Rightarrow> int \<Rightarrow> string \<Rightarrow> string \<Rightarrow> string \<Rightarrow> buffer
     \<Rightarrow> MemoryStorage \<times> string" where
  "addFile ttl st now fileId sessionId name data =
     (let (st1, found) = getSession ttl st now sessionId;
          session = (case found of
                       Some s \<Rightarrow> s
                     | None \<Rightarrow> \<lparr>session_id = sessionId, session_files = [],
                                session_createdAt = now, session_lastAccessedAt = now\<rparr>);
          storedFile = \<lparr>file_id = fileId, file_name = name, file_data = data,
                        file_size = length data, file_createdAt = now\<rparr>
      in (st1(sessionId \<mapsto> session\<lparr>session_files :=
                 map_set fileId storedFile (session_files session)\<rparr>),
          fileId))"

definition getFile ::
  "int \<Rightarrow> MemoryStorage \<Rightarrow> int \<Rightarrow> string \<Rightarrow> string \<Rightarrow> MemoryStorage \<times> StoredFile option" where
  "getFile ttl st now sessionId fileId =
     (let (st1, found) = getSession ttl st now sessionId
      in case found of
           None \<Rightarrow> (st1, None)
         | Some session \<Rightarrow> (st1, map_get (session_files session) fileId))"

record FileInfo =
  info_id :: string
  info_name :: string
  info_size :: nat
  info_lastModified :: string

definition listFiles ::
  "codec \<Rightarrow> int \<Rightarrow> MemoryStorage \<Rightarrow> int \<Rightarrow> string \<Rightarrow> MemoryStorage \<times> FileInfo list" where
  "listFiles C ttl st now sessionId =
     (let (st1, found) = getSession ttl st now sessionId
      in case found of
           None \<Rightarrow> (st1, [])
         | Some session \<Rightarrow>
             (st1, map (\<lambda>(k, file). \<lparr>info_id = file_id file, info_name = file_name file,
                                     info_size = file_size file,
                                     info_lastModified =
                                       toISOString C (file_createdAt file)\<rparr>)
                       (session_files session)))"

definition cleanup :: "int \<Rightarrow> MemoryStorage \<Rightarrow> int \<Rightarrow> MemoryStorage" where
  "cleanup ttl st now =
     (\<lambda>sessionId. case st sessionId of
        None \<Rightarrow> None
      | Some session \<Rightarrow>
          if now - session_lastAccessedAt session \<ge> ttl then None else Some session)"

section \<open>Path translation (Judge0Client.execute, lines 65-73)\<close>

text \<open>
  Source text is a \<^typ>\<open>string\<close>. The three regular expressions only compare with the
  ASCII characters of \<open>/mnt/data\<close>, \<open>.\<close> and the word characters \<open>[A-Za-z0-9_]\<close>, so
  every other character code behaves alike.

  \<^item> \<open>matchSlash\<close> is a match of \<open>(?<!\.)\/mnt\/data\/\<close> at the head of the text, \<open>prev\<close>
    being the character before it (\<open>None\<close> at the start of the input);
  \<^item> \<open>matchBare\<close> is a match of \<open>(?<!\.)\/mnt\/data\b\<close>: after the word character \<open>a\<close>
    the assertion \<open>\b\<close> holds at the end of input or before a non-word character;
  \<^item> \<open>matchPattern\<close> is a match of \<open>(?<!\.)\/mnt\/data(\/|(?=\b))\<close>.

  \<open>String.replace\<close> with a global pattern scans from the left, replaces the leftmost
  match, and continues after it; \<open>RegExp.test\<close> asks whether the pattern matches at
  any position.
\<close>

definition isWordChar :: "char \<Rightarrow> bool" where
  "isWordChar c =
     (let n = (of_char c :: nat)
      in (48 \<le> n \<and> n \<le> 57) \<or> (65 \<le> n \<and> n \<le> 90) \<or> n = 95 \<or> (97 \<le> n \<and> n \<le> 122))"

definition MNT_DATA :: string where
  "MNT_DATA = ''/mnt/data''"

definition lookbehind_ok :: "char option \<Rightarrow> bool" where
  "lookbehind_ok prev = (prev \<noteq> Some CHR ''.'')"

definition wordBoundary :: "string \<Rightarrow> bool" where
  "wordBoundary rest = (case rest of [] \<Rightarrow> True | c # _ \<Rightarrow> \<not> isWordChar c)"

definition matchSlash :: "char option \<Rightarrow> string \<Rightarrow> bool" where
  "matchSlash prev s = (lookbehind_ok prev \<and> prefix (MNT_DATA @ ''/'') s)"

definition matchBare :: "char option \<Rightarrow> string \<Rightarrow> bool" where
  "matchBare prev s = (lookbehind_ok prev \<and> prefix MNT_DATA s \<and> wordBoundary (drop 9 s))"

definition matchPattern :: "char option \<Rightarrow> string \<Rightarrow> bool" where
  "matchPattern prev s =
     (lookbehind_ok prev \<and> prefix MNT_DATA s \<and>
      (prefix ''/'' (drop 9 s) \<or> wordBoundary (drop 9 s)))"

function replaceSlash :: "char option \<Rightarrow> string \<Rightarrow> string" where
  "replaceSlash prev [] = []"
| "replaceSlash prev (c # cs) =
     (if matchSlash prev (c # cs) then ''./'' @ replaceSlash (Some CHR ''/'') (drop 9 cs)
      else c # replaceSlash (Some c) cs)"
  by pat_completeness auto
termination
  by (relation "measure (\<lambda>(prev, s). length s)") auto

function replaceBare :: "char option \<Rightarrow> string \<Rightarrow> string" where
  "replaceBare prev [] = []"
| "replaceBare prev (c # cs) =
     (if matchBare prev (c # cs) then ''.'' @ replaceBare (Some CHR ''a'') (drop 8 cs)
      else c # replaceBare (Some c) cs)"
  by pat_completeness auto
termination
  by (relation "measure (\<lambda>(prev, s). length s)") auto

fun pathPattern_test :: "char option \<Rightarrow> string \<Rightarrow> bool" where
  "pathPattern_test prev [] = False"
| "pathPattern_test prev (c # cs) =
     (matchPattern prev (c # cs) \<or> pathPattern_test (Some c) cs)"

definition translatePaths :: "string \<Rightarrow> string" where
  "translatePaths code = replaceBare None (replaceSlash None code)"

text \<open>The character that precedes the rest of a text once the scan has copied \<open>w\<close>.\<close>

definition prevAfter :: "char option \<Rightarrow> string \<Rightarrow> char option" where
  "prevAfter prev w = (if w = [] then prev else Some (last w))"


section \<open>Base64 (Buffer.toString('base64'), Buffer.from(text, 'base64'))\<close>

text \<open>
  \<open>toBase64\<close> is the RFC 4648 encoding with padding that \<open>Buffer.toString('base64')\<close>
  produces. \<open>fromBase64\<close> is Node's lenient decoder: it accepts the standard and the
  URL-safe alphabet, skips every other character, stops at the first \<open>=\<close>, and drops a
  trailing group that carries fewer than eight bits.
\<close>

definition b64char :: "nat \<Rightarrow> char" where
  "b64char n =
     (if n < 26 then char_of (65 + n)
      else if n < 52 then char_of (71 + n)
      else if n < 62 then char_of (n - 4)
      else if n = 62 then CHR ''+'' else CHR ''/'')"

definition unbase64 :: "char \<Rightarrow> nat option" where
  "unbase64 c =
     (let n = (of_char c :: nat)
      in if 65 \<le> n \<and> n \<le> 90 then Some (n - 65)
         else if 97 \<le> n \<and> n \<le> 122 then Some (n - 71)
         else if 48 \<le> n \<and> n \<le> 57 then Some (n + 4)
         else if c = CHR ''+'' \<or> c = CHR ''-'' then Some 62
         else if c = CHR ''/'' \<or> c = CHR ''_'' then Some 63
         else None)"

fun toBase64 :: "buffer \<Rightarrow> string" where
  "toBase64 (a # b # c # rest) =
     [b64char (unat a div 4),
      b64char (unat a mod 4 * 16 + unat b div 16),
      b64char (unat b mod 16 * 4 + unat c div 64),
      b64char (unat c mod 64)] @ toBase64 rest"
| "toBase64 [a, b] =
     [b64char (unat a div 4),
      b64char (unat a mod 4 * 16 + unat b div 16),
      b64char (unat b mod 16 * 4),
      CHR ''='']"
| "toBase64 [a] =
     [b64char (unat a div 4), b64char (unat a mod 4 * 16), CHR ''='', CHR ''='']"
| "toBase64 [] = []"

fun sextets :: "string \<Rightarrow> nat list" where
  "sextets [] = []"
| "sextets (c # cs) =
     (if c = CHR ''='' then []
      else case unbase64 c of None \<Rightarrow> sextets cs | Some v \<Rightarrow> v # sextets cs)"

fun octets :: "nat list \<Rightarrow> buffer" where
  "octets (p # q # r # s # rest) =
     [of_nat (p * 4 + q div 16), of_nat (q mod 16 * 16 + r div 4), of_nat (r mod 4 * 64 + s)]
       @ octets rest"
| "octets [p, q, r] = [of_nat (p * 4 + q div 16), of_nat (q mod 16 * 16 + r div 4)]"
| "octets [p, q] = [of_nat (p * 4 + q div 16)]"
| "octets [p] = []"
| "octets [] = []"

definition fromBase64 :: "string \<Rightarrow> buffer" where
  "fromBase64 text = octets (sextets text)"

section \<open>The JavaScript runtime and libraries the translator calls\<close>

text \<open>
  What the code takes from the runtime and from the archive library is a parameter of
  the model: UTF-8 coding of text (\<open>Buffer.toString('utf-8')\<close>, \<open>Buffer.from(s, 'utf-8')\<close>),
  \<open>String.trim\<close>, and AdmZip's reading and writing of archives. \<open>readZip\<close> is \<open>None\<close>
  where the library throws; a \<open>ZipEntry\<close> holds what the code reads of an entry:
  \<open>entryName\<close>, \<open>isDirectory\<close> and \<open>getData()\<close>.
\<close>

record ZipEntry =
  entryName :: string
  isDirectory :: bool
  getData :: buffer

record runtime =
  utf8_toString :: "buffer \<Rightarrow> string"
  utf8_bytes :: "string \<Rightarrow> buffer"
  trim :: "string \<Rightarrow> string"
  readZip :: "buffer \<Rightarrow> ZipEntry list option"
  writeZip :: "(string \<times> buffer) list \<Rightarrow> buffer"

text \<open>
  A runtime for the worked examples: text is ASCII, so the UTF-8 coding keeps every
  code; \<open>trim\<close> strips ASCII white space; no archive is readable.
\<close>

definition isAsciiSpace :: "char \<Rightarrow> bool" where
  "isAsciiSpace c = (c \<in> set [CHR 0x09, CHR 0x0A, CHR 0x0B, CHR 0x0C, CHR 0x0D, CHR '' ''])"

definition ascii_runtime :: runtime where
  "ascii_runtime =
     \<lparr>utf8_toString = map (\<lambda>b. char_of (unat b)),
      utf8_bytes = map (\<lambda>c. of_nat (of_char c)),
      trim = (\<lambda>s. rev (dropWhile isAsciiSpace (rev (dropWhile isAsciiSpace s)))),
      readZip = (\<lambda>b. None),
      writeZip = (\<lambda>fs. [])\<rparr>"

section \<open>utils.ts\<close>

definition encodeBase64 :: "runtime \<Rightarrow> string \<Rightarrow> string" where
  "encodeBase64 R str = toBase64 (utf8_bytes R str)"

definition decodeBase64 :: "runtime \<Rightarrow> string \<Rightarrow> string" where
  "decodeBase64 R base64 = utf8_toString R (fromBase64 base64)"

definition createZip :: "runtime \<Rightarrow> (string \<times> buffer) list \<Rightarrow> string" where
  "createZip R files = toBase64 (writeZip R files)"

definition JUDGE0_ARTIFACTS :: "string list" where
  "JUDGE0_ARTIFACTS =
     [''script.py'', ''script.js'', ''script.ts'', ''main.c'', ''main.cpp'', ''Main.java'',
      ''script.php'', ''main.rs'', ''main.go'', ''main.d'', ''main.f90'', ''script.r'',
      ''run.sh'', ''compile.sh'']"

text \<open>
  \<open>entryName.split('/').pop() || entryName\<close>: the text after the last \<open>/\<close>, and the whole
  name when that text is empty.
\<close>

definition lastSegment :: "string \<Rightarrow> string" where
  "lastSegment s = rev (takeWhile (\<lambda>c. c \<noteq> CHR ''/'') (rev s))"

definition flatName :: "string \<Rightarrow> string" where
  "flatName s = (if lastSegment s = [] then s else lastSegment s)"

definition startsWithDot :: "string \<Rightarrow> bool" where
  "startsWithDot s = (case s of [] \<Rightarrow> False | c # cs \<Rightarrow> c = CHR ''.'')"

text \<open>The loop of \<open>extractZip\<close> over the entries; \<open>files\<close> is the array it pushes to.\<close>

fun extractEntries ::
  "string list \<Rightarrow> (string \<times> buffer) list \<Rightarrow> ZipEntry list \<Rightarrow> (string \<times> buffer) list" where
  "extractEntries inputFileNames files [] = files"
| "extractEntries inputFileNames files (entry # entries) =
     (if isDirectory entry \<or> startsWithDot (entryName entry)
        then extractEntries inputFileNames files entries
      else if flatName (entryName entry) \<in> set JUDGE0_ARTIFACTS
        then extractEntries inputFileNames files entries
      else if flatName (entryName entry) \<in> set inputFileNames
        then extractEntries inputFileNames files entries
      else extractEntries inputFileNames
             (files @ [(flatName (entryName entry), getData entry)]) entries)"

definition extractZip ::
  "runtime \<Rightarrow> string \<Rightarrow> string list \<Rightarrow> (string \<times> buffer) list option" where
  "extractZip R base64Zip inputFileNames =
     (case readZip R (fromBase64 base64Zip) of
        None \<Rightarrow> None
      | Some entries \<Rightarrow> Some (extractEntries inputFileNames [] entries))"

section \<open>config.ts\<close>

text \<open>The language codes \<open>'py'\<close>, \<open>'js'\<close>, ... of \<open>LanguageCode\<close> and \<open>LANGUAGE_MAP\<close>.\<close>

datatype LanguageCode =
  lang_py | lang_js | lang_ts | lang_c | lang_cpp | lang_java
  | lang_php | lang_rs | lang_go | lang_d | lang_f90 | lang_r

fun getJudge0LanguageId :: "LanguageCode \<Rightarrow> nat" where
  "getJudge0LanguageId lang_py = 71"
| "getJudge0LanguageId lang_js = 63"
| "getJudge0LanguageId lang_ts = 74"
| "getJudge0LanguageId lang_c = 50"
| "getJudge0LanguageId lang_cpp = 54"
| "getJudge0LanguageId lang_java = 62"
| "getJudge0LanguageId lang_php = 68"
| "getJudge0LanguageId lang_rs = 73"
| "getJudge0LanguageId lang_go = 60"
| "getJudge0LanguageId lang_d = 56"
| "getJudge0LanguageId lang_f90 = 59"
| "getJudge0LanguageId lang_r = 80"

section \<open>Judge0Client (judge0-client.ts)\<close>

text \<open>
  An optional text field of the backend's response is a \<^typ>\<open>string option\<close>; a
  JavaScript condition on it holds when the field is present and not empty.
\<close>

record FileReference =
  ref_session_id :: string
  ref_id :: string
  ref_name :: string

record OutputFile =
  out_id :: string
  out_name :: string

record ExecResponse =
  exec_stdout :: string
  exec_stderr :: string
  exec_session_id :: string
  exec_files :: "OutputFile list option"

record Judge0SubmissionRequest =
  source_code :: string
  language_id :: nat
  additional_files :: "string option"
  command_line_arguments :: "string option"

record Judge0Status =
  status_id :: int
  description :: string

record Judge0SubmissionResponse =
  j0_stdout :: "string option"
  j0_stderr :: "string option"
  compile_output :: "string option"
  message :: "string option"
  status :: "Judge0Status option"
  post_execution_filesystem :: "string option"

definition truthy :: "string option \<Rightarrow> bool" where
  "truthy field = (case field of None \<Rightarrow> False | Some s \<Rightarrow> s \<noteq> [])"

definition decoded :: "runtime \<Rightarrow> string option \<Rightarrow> string" where
  "decoded R field = (case field of None \<Rightarrow> [] | Some s \<Rightarrow> decodeBase64 R s)"

text \<open>
  What the \<open>catch\<close> of \<open>execute\<close> can receive from the HTTP call. An \<open>AxiosError\<close> carries
  the response of a non-2xx answer when there was one (its status and, when the body is
  an object, its \<open>error\<close> and \<open>message\<close> fields where they are set), an error \<open>code\<close> and
  its \<open>message\<close>; anything else thrown is another \<open>Error\<close> with its message, or a value
  that is no \<open>Error\<close>.

  A field of the body is a JavaScript value of any kind. \<open>handleError\<close> asks of it
  whether it is truthy (\<open>if (data.error)\<close>) and prints it in a template literal, so a
  value is held as these two readings. A string is truthy when
  it is not empty and prints as itself; a field that is not set is \<open>None\<close>, which is not
  truthy.
\<close>

record JsValue =
  js_truthy :: bool
  js_text :: string

definition jsString :: "string \<Rightarrow> JsValue" where
  "jsString s = \<lparr>js_truthy = (s \<noteq> []), js_text = s\<rparr>"

definition truthyValue :: "JsValue option \<Rightarrow> bool" where
  "truthyValue field = (case field of None \<Rightarrow> False | Some v \<Rightarrow> js_truthy v)"

record ErrorBody =
  body_error :: "JsValue option"
  body_message :: "JsValue option"

record ErrorResponse =
  http_status :: nat
  http_data :: "ErrorBody option"

datatype Thrown =
  AxiosError "ErrorResponse option" "string option" string
  | OtherError string
  | NotAnError

datatype Outcome = Responded Judge0SubmissionResponse | Failed Thrown

definition NOTICE :: string where
  "NOTICE = ''FYI: judge0-bridge replaces /mnt/data to ./'' @ [CHR 0x0A, CHR 0x0A]"

fun digits :: "nat \<Rightarrow> string" where
  "digits n = (if n < 10 then [char_of (48 + n)] else digits (n div 10) @ [char_of (48 + n mod 10)])"

declare digits.simps [simp del]

fun joinWith :: "string \<Rightarrow> string list \<Rightarrow> string" where
  "joinWith sep [] = []"
| "joinWith sep [x] = x"
| "joinWith sep (x # y # ys) = x @ sep @ joinWith sep (y # ys)"

text \<open>The \<open>switch\<close> of \<open>translateResponse\<close> on \<open>status?.id\<close>: the value of \<open>stderr\<close>.\<close>

definition classify :: "runtime \<Rightarrow> Judge0SubmissionResponse \<Rightarrow> string" where
  "classify R j0Response =
     (let statusId = map_option status_id (status j0Response)
      in if statusId = Some 6 then
           (if truthy (compile_output j0Response)
            then decoded R (compile_output j0Response) else ''Compilation error'')
         else if statusId \<in> Some ` {5, 7, 8, 9, 10, 11, 12, 14} then
           (let stderr = (if truthy (j0_stderr j0Response)
                          then decoded R (j0_stderr j0Response) else [])
            in case status j0Response of
                 None \<Rightarrow> stderr
               | Some st \<Rightarrow>
                   if description st \<noteq> []
                   then trim R (stderr @ [CHR 0x0A] @ ''['' @ description st @ '']'')
                   else stderr)
         else if statusId = Some 13 then
           (if truthy (message j0Response)
            then decoded R (message j0Response) else ''Internal execution error'')
         else
           (if truthy (j0_stderr j0Response) then decoded R (j0_stderr j0Response) else []))"

text \<open>
  The loop that stores the extracted files: the \<open>k\<close>-th identifier that \<open>nanoid()\<close>
  returns during the call is \<open>gen k\<close>.
\<close>

fun storeOutputs ::
  "int \<Rightarrow> MemoryStorage \<Rightarrow> int \<Rightarrow> (nat \<Rightarrow> string) \<Rightarrow> nat \<Rightarrow> string
     \<Rightarrow> (string \<times> buffer) list \<Rightarrow> MemoryStorage \<times> OutputFile list" where
  "storeOutputs ttl st now gen k sessionId [] = (st, [])"
| "storeOutputs ttl st now gen k sessionId (file # files) =
     (let (st1, fileId) = addFile ttl st now (gen k) sessionId (fst file) (snd file);
          (st2, outputFiles) = storeOutputs ttl st1 now gen (Suc k) sessionId files
      in (st2, \<lparr>out_id = fileId, out_name = fst file\<rparr> # outputFiles))"

definition translateResponse ::
  "runtime \<Rightarrow> int \<Rightarrow> MemoryStorage \<Rightarrow> int \<Rightarrow> (nat \<Rightarrow> string) \<Rightarrow> Judge0SubmissionResponse
     \<Rightarrow> string list \<Rightarrow> bool \<Rightarrow> MemoryStorage \<times> ExecResponse" where
  "translateResponse R ttl st now gen j0Response inputFileNames pathTranslationOccurred =
     (let (st1, sessionId) = createSession st now (gen 0);
          stdout0 = (if pathTranslationOccurred then NOTICE else []);
          stdout = (if truthy (j0_stdout j0Response)
                    then stdout0 @ decoded R (j0_stdout j0Response) else stdout0);
          stderr = classify R j0Response;
          (st2, outputFiles) =
            (if truthy (post_execution_filesystem j0Response) then
               (case extractZip R (the (post_execution_filesystem j0Response)) inputFileNames of
                  None \<Rightarrow> (st1, [])
                | Some extractedFiles \<Rightarrow>
                    storeOutputs ttl st1 now gen 1 sessionId extractedFiles)
             else (st1, []))
      in (st2, \<lparr>exec_stdout = stdout, exec_stderr = stderr, exec_session_id = sessionId,
                exec_files = (if outputFiles \<noteq> [] then Some outputFiles else None)\<rparr>))"

definition errorText :: "Thrown \<Rightarrow> string" where
  "errorText error =
     (case error of
        AxiosError (Some response) code msg \<Rightarrow>
          ''Judge0 error ('' @ digits (http_status response) @ '')'' @
          (case http_data response of
             None \<Rightarrow> []
           | Some body \<Rightarrow>
               if truthyValue (body_error body)
                 then '': '' @ js_text (the (body_error body))
               else if truthyValue (body_message body)
                 then '': '' @ js_text (the (body_message body))
               else [])
      | AxiosError None code msg \<Rightarrow>
          if code = Some ''ECONNREFUSED'' then ''Judge0 service unavailable''
          else if code = Some ''ETIMEDOUT'' \<or> code = Some ''ECONNABORTED''
            then ''Execution timed out''
          else ''Execution failed: '' @ msg
      | OtherError msg \<Rightarrow> ''Execution failed: '' @ msg
      | NotAnError \<Rightarrow> ''Execution failed: '' @ ''Unknown error'')"

definition handleError ::
  "MemoryStorage \<Rightarrow> int \<Rightarrow> (nat \<Rightarrow> string) \<Rightarrow> Thrown \<Rightarrow> MemoryStorage \<times> ExecResponse" where
  "handleError st now gen error =
     (let (st1, sessionId) = createSession st now (gen 0)
      in (st1, \<lparr>exec_stdout = [], exec_stderr = errorText error,
                exec_session_id = sessionId, exec_files = None\<rparr>))"

text \<open>
  The loop of \<open>execute\<close> over the file references: a reference the store does not
  resolve is skipped.
\<close>

fun resolveFiles ::
  "int \<Rightarrow> MemoryStorage \<Rightarrow> int \<Rightarrow> FileReference list
     \<Rightarrow> MemoryStorage \<times> (string \<times> buffer) list" where
  "resolveFiles ttl st now [] = (st, [])"
| "resolveFiles ttl st now (fileRef # files) =
     (let (st1, storedFile) = getFile ttl st now (ref_session_id fileRef) (ref_id fileRef);
          (st2, fileBuffers) = resolveFiles ttl st1 now files
      in (st2, (case storedFile of
                  Some f \<Rightarrow> (ref_name fileRef, file_data f) # fileBuffers
                | None \<Rightarrow> fileBuffers)))"

text \<open>
  The part of \<open>execute\<close> before the HTTP call (read at time \<open>t0\<close>): the store after the
  lookups, the submission, the input file names and \<open>pathTranslationOccurred\<close>. A
  missing \<open>files\<close> or \<open>args\<close> is the empty list.
\<close>

definition prepare ::
  "runtime \<Rightarrow> int \<Rightarrow> MemoryStorage \<Rightarrow> int \<Rightarrow> LanguageCode \<Rightarrow> string \<Rightarrow> FileReference list
     \<Rightarrow> string list \<Rightarrow> MemoryStorage \<times> Judge0SubmissionRequest \<times> string list \<times> bool" where
  "prepare R ttl st t0 lang code files args =
     (let pathTranslationOccurred = pathPattern_test None code;
          translatedCode = translatePaths code;
          (st1, fileBuffers) = resolveFiles ttl st t0 files;
          inputFileNames = map fst fileBuffers;
          request = \<lparr>source_code = encodeBase64 R translatedCode,
                     language_id = getJudge0LanguageId lang,
                     additional_files =
                       (if fileBuffers \<noteq> [] then Some (createZip R fileBuffers) else None),
                     command_line_arguments =
                       (if args \<noteq> [] then Some (joinWith '' '' args) else None)\<rparr>
      in (st1, request, inputFileNames, pathTranslationOccurred))"

definition submission ::
  "runtime \<Rightarrow> int \<Rightarrow> MemoryStorage \<Rightarrow> int \<Rightarrow> LanguageCode \<Rightarrow> string \<Rightarrow> FileReference list
     \<Rightarrow> string list \<Rightarrow> Judge0SubmissionRequest" where
  "submission R ttl st t0 lang code files args =
     fst (snd (prepare R ttl st t0 lang code files args))"

text \<open>
  \<open>execute\<close>: \<open>backend\<close> is what the HTTP call does with the submission, the answer
  arriving at time \<open>t1\<close>.
\<close>

definition execute ::
  "runtime \<Rightarrow> (Judge0SubmissionRequest \<Rightarrow> Outcome) \<Rightarrow> int \<Rightarrow> MemoryStorage \<Rightarrow> int \<Rightarrow> int
     \<Rightarrow> (nat \<Rightarrow> string) \<Rightarrow> LanguageCode \<Rightarrow> string \<Rightarrow> FileReference list \<Rightarrow> string list
     \<Rightarrow> MemoryStorage \<times> ExecResponse" where
  "execute R backend ttl st t0 t1 gen lang code files args =
     (let (st1, request, inputFileNames, pathTranslationOccurred) =
            prepare R ttl st t0 lang code files args
      in case backend request of
           Responded j0Response \<Rightarrow>
             translateResponse R ttl st1 t1 gen j0Response inputFileNames pathTranslationOccurred
         | Failed error \<Rightarrow> handleError st1 t1 gen error)"

section \<open>Redis (the commands that RedisStorage sends)\<close>

text \<open>
  A key holds a hash (fields in the order they were set) or a string, and may carry
  the time at which it expires. Once the clock has passed that time the key is gone
  for every command, whether or not the server has removed it yet. A command on a key of the other kind
  is answered \<open>WRONGTYPE\<close>, which the client throws. \<open>SET\<close> clears the expiry of the key;
  \<open>EXPIRE\<close> with a lifetime that is not positive deletes the key, and does nothing to a
  key that is not there.
\<close>

datatype RedisValue = Hash "(string \<times> string) list" | Str string

datatype RedisError = WRONGTYPE

type_synonym Redis = "string \<Rightarrow> (RedisValue \<times> int option) option"

definition live :: "Redis \<Rightarrow> int \<Rightarrow> string \<Rightarrow> RedisValue option" where
  "live db now key =
     (case db key of
        None \<Rightarrow> None
      | Some (v, None) \<Rightarrow> Some v
      | Some (v, Some t) \<Rightarrow> if t < now then None else Some v)"

definition expiry :: "Redis \<Rightarrow> string \<Rightarrow> int option" where
  "expiry db key = (case db key of None \<Rightarrow> None | Some (v, e) \<Rightarrow> e)"

definition EXISTS :: "Redis \<Rightarrow> int \<Rightarrow> string \<Rightarrow> bool" where
  "EXISTS db now key = (live db now key \<noteq> None)"

fun setFields :: "(string \<times> string) list \<Rightarrow> (string \<times> string) list \<Rightarrow> (string \<times> string) list" where
  "setFields [] h = h"
| "setFields (fv # fvs) h = setFields fvs (map_set (fst fv) (snd fv) h)"

definition HSET :: "Redis \<Rightarrow> int \<Rightarrow> string \<Rightarrow> (string \<times> string) list \<Rightarrow> RedisError + Redis" where
  "HSET db now key fvs =
     (case live db now key of
        None \<Rightarrow> Inr (db(key \<mapsto> (Hash (setFields fvs []), None)))
      | Some (Hash h) \<Rightarrow> Inr (db(key \<mapsto> (Hash (setFields fvs h), expiry db key)))
      | Some (Str s) \<Rightarrow> Inl WRONGTYPE)"

definition HGETALL :: "Redis \<Rightarrow> int \<Rightarrow> string \<Rightarrow> RedisError + (string \<times> string) list" where
  "HGETALL db now key =
     (case live db now key of
        None \<Rightarrow> Inr []
      | Some (Hash h) \<Rightarrow> Inr h
      | Some (Str s) \<Rightarrow> Inl WRONGTYPE)"

definition HGET :: "Redis \<Rightarrow> int \<Rightarrow> string \<Rightarrow> string \<Rightarrow> RedisError + string option" where
  "HGET db now key field =
     (case live db now key of
        None \<Rightarrow> Inr None
      | Some (Hash h) \<Rightarrow> Inr (map_get h field)
      | Some (Str s) \<Rightarrow> Inl WRONGTYPE)"

definition SET :: "Redis \<Rightarrow> string \<Rightarrow> string \<Rightarrow> Redis" where
  "SET db key v = db(key \<mapsto> (Str v, None))"

definition GET :: "Redis \<Rightarrow> int \<Rightarrow> string \<Rightarrow> RedisError + string option" where
  "GET db now key =
     (case live db now key of
        None \<Rightarrow> Inr None
      | Some (Str s) \<Rightarrow> Inr (Some s)
      | Some (Hash h) \<Rightarrow> Inl WRONGTYPE)"

definition EXPIRE :: "Redis \<Rightarrow> int \<Rightarrow> string \<Rightarrow> int \<Rightarrow> Redis" where
  "EXPIRE db now key seconds =
     (case live db now key of
        None \<Rightarrow> db
      | Some v \<Rightarrow>
          if seconds \<le> 0 then db(key := None)
          else db(key \<mapsto> (v, Some (now + seconds * 1000))))"

section \<open>RedisStorage (storage.ts)\<close>

text \<open>
  As for the in-memory store, \<open>ttl\<close> is the configured \<open>sessionExpiryMs\<close>, of which the
  constructor keeps \<open>ttlSeconds = Math.floor(ttl / 1000)\<close>, and \<open>now\<close> is the time of the
  call in milliseconds. An operation returns the error that the client throws, or the
  store it leaves and its result.
\<close>

definition ttlSeconds :: "int \<Rightarrow> int" where
  "ttlSeconds ttl = ttl div 1000"

definition sessionKey :: "string \<Rightarrow> string" where
  "sessionKey sessionId = ''session:'' @ sessionId"

definition filesKey :: "string \<Rightarrow> string" where
  "filesKey sessionId = ''session:'' @ sessionId @ '':files''"

definition fileDataKey :: "string \<Rightarrow> string \<Rightarrow> string" where
  "fileDataKey sessionId fileId = ''file:'' @ sessionId @ '':'' @ fileId"

definition refreshTTL :: "int \<Rightarrow> Redis \<Rightarrow> int \<Rightarrow> string \<Rightarrow> Redis" where
  "refreshTTL ttl db now sessionId =
     EXPIRE (EXPIRE db now (sessionKey sessionId) (ttlSeconds ttl))
       now (filesKey sessionId) (ttlSeconds ttl)"

definition redis_createSession ::
  "codec \<Rightarrow> int \<Rightarrow> Redis \<Rightarrow> int \<Rightarrow> string \<Rightarrow> RedisError + Redis \<times> string" where
  "redis_createSession C ttl db now new_id =
     (case HSET db now (sessionKey new_id)
             [(''id'', new_id), (''createdAt'', toISOString C now),
              (''lastAccessedAt'', toISOString C now)] of
        Inl e \<Rightarrow> Inl e
      | Inr db1 \<Rightarrow> Inr (EXPIRE db1 now (sessionKey new_id) (ttlSeconds ttl), new_id))"

definition redis_addFile ::
  "codec \<Rightarrow> int \<Rightarrow> Redis \<Rightarrow> int \<Rightarrow> string \<Rightarrow> string \<Rightarrow> string \<Rightarrow> buffer
     \<Rightarrow> RedisError + Redis \<times> string" where
  "redis_addFile C ttl db now fileId sessionId name data =
     (case (if EXISTS db now (sessionKey sessionId) then Inr db
            else HSET db now (sessionKey sessionId)
                   [(''id'', sessionId), (''createdAt'', toISOString C now),
                    (''lastAccessedAt'', toISOString C now)]) of
        Inl e \<Rightarrow> Inl e
      | Inr db1 \<Rightarrow>
          (case HSET db1 now (filesKey sessionId)
                  [(fileId, JSON_stringify C \<lparr>meta_name = name, meta_size = length data,
                                              meta_createdAt = toISOString C now\<rparr>)] of
             Inl e \<Rightarrow> Inl e
           | Inr db2 \<Rightarrow>
               (let db3 = SET db2 (fileDataKey sessionId fileId) (toBase64 data);
                    db4 = EXPIRE db3 now (fileDataKey sessionId fileId) (ttlSeconds ttl)
                in Inr (refreshTTL ttl db4 now sessionId, fileId))))"

definition redis_getFile ::
  "codec \<Rightarrow> int \<Rightarrow> Redis \<Rightarrow> int \<Rightarrow> string \<Rightarrow> string
     \<Rightarrow> RedisError + Redis \<times> StoredFile option" where
  "redis_getFile C ttl db now sessionId fileId =
     (if \<not> EXISTS db now (sessionKey sessionId) then Inr (db, None)
      else case HGET db now (filesKey sessionId) fileId of
             Inl e \<Rightarrow> Inl e
           | Inr None \<Rightarrow> Inr (db, None)
           | Inr (Some metadataJson) \<Rightarrow>
               if metadataJson = [] then Inr (db, None)
               else (case GET db now (fileDataKey sessionId fileId) of
                       Inl e \<Rightarrow> Inl e
                     | Inr None \<Rightarrow> Inr (db, None)
                     | Inr (Some dataBase64) \<Rightarrow>
                         if dataBase64 = [] then Inr (db, None)
                         else (case JSON_parse C metadataJson of
                                 None \<Rightarrow> Inr (db, None)
                               | Some metadata \<Rightarrow>
                                   Inr (refreshTTL ttl db now sessionId,
                                        Some \<lparr>file_id = fileId,
                                              file_name = meta_name metadata,
                                              file_data = fromBase64 dataBase64,
                                              file_size = meta_size metadata,
                                              file_createdAt =
                                                parseDate C (meta_createdAt metadata)\<rparr>))))"

fun parsedEntries :: "codec \<Rightarrow> (string \<times> string) list \<Rightarrow> FileInfo list" where
  "parsedEntries C [] = []"
| "parsedEntries C (entry # entries) =
     (case JSON_parse C (snd entry) of
        None \<Rightarrow> parsedEntries C entries
      | Some metadata \<Rightarrow>
          \<lparr>info_id = fst entry, info_name = meta_name metadata,
           info_size = meta_size metadata, info_lastModified = meta_createdAt metadata\<rparr>
            # parsedEntries C entries)"

definition redis_listFiles ::
  "codec \<Rightarrow> int \<Rightarrow> Redis \<Rightarrow> int \<Rightarrow> string \<Rightarrow> RedisError + Redis \<times> FileInfo list" where
  "redis_listFiles C ttl db now sessionId =
     (if \<not> EXISTS db now (sessionKey sessionId) then Inr (db, [])
      else case HGETALL db now (filesKey sessionId) of
             Inl e \<Rightarrow> Inl e
           | Inr filesData \<Rightarrow>
               Inr (refreshTTL ttl db now sessionId, parsedEntries C filesData))"

definition redis_isSessionValid :: "Redis \<Rightarrow> int \<Rightarrow> string \<Rightarrow> bool" where
  "redis_isSessionValid db now sessionId = EXISTS db now (sessionKey sessionId)"

text \<open>
  The kinds of the keys: the code keeps strings under the keys that start with
  \<open>file:\<close> and hashes under all others.
\<close>

definition typed :: "Redis \<Rightarrow> bool" where
  "typed db =
     (\<forall>key v e. db key = Some (v, e) \<longrightarrow>
        (case v of Str s \<Rightarrow> take 5 key = ''file:'' | Hash h \<Rightarrow> take 5 key \<noteq> ''file:''))"

section \<open>Worked examples\<close>

text \<open>
  Concrete inputs for the instances below: an output archive, backend answers and
  transport failures.
\<close>

text \<open>The identifiers of the worked examples: \<open>id0\<close>, \<open>id1\<close>, ...\<close>

definition example_ids :: "nat \<Rightarrow> string" where
  "example_ids k = ''id'' @ digits k"

definition example_archive :: "ZipEntry list" where
  "example_archive =
     [\<lparr>entryName = ''script.py'', isDirectory = False, getData = [1]\<rparr>,
      \<lparr>entryName = ''run.sh'', isDirectory = False, getData = [2]\<rparr>,
      \<lparr>entryName = ''input.csv'', isDirectory = False, getData = [3]\<rparr>,
      \<lparr>entryName = ''result.csv'', isDirectory = False, getData = [4]\<rparr>]"

definition example_nested_archive :: "ZipEntry list" where
  "example_nested_archive =
     [\<lparr>entryName = ''Script.py'', isDirectory = False, getData = [1]\<rparr>,
      \<lparr>entryName = ''out/run.sh'', isDirectory = False, getData = [2]\<rparr>,
      \<lparr>entryName = ''out/plot.png'', isDirectory = False, getData = [3]\<rparr>,
      \<lparr>entryName = ''.cache'', isDirectory = False, getData = [4]\<rparr>,
      \<lparr>entryName = ''out/'', isDirectory = True, getData = []\<rparr>,
      \<lparr>entryName = ''data/input.csv'', isDirectory = False, getData = [5]\<rparr>,
      \<lparr>entryName = ''data/Input.csv'', isDirectory = False, getData = [6]\<rparr>,
      \<lparr>entryName = ''out/.hidden'', isDirectory = False, getData = [7]\<rparr>,
      \<lparr>entryName = ''.git/config'', isDirectory = False, getData = [8]\<rparr>,
      \<lparr>entryName = ''a/b/c.txt'', isDirectory = False, getData = [9]\<rparr>]"

definition example_compile_error :: Judge0SubmissionResponse where
  "example_compile_error =
     \<lparr>j0_stdout = None, j0_stderr = None, compile_output = Some ''bWFpbi5jOjE6IGVycm9y'',
      message = None, status = Some \<lparr>status_id = 6, description = ''Compilation Error''\<rparr>,
      post_execution_filesystem = None\<rparr>"

definition example_refused :: "Judge0SubmissionRequest \<Rightarrow> Outcome" where
  "example_refused request =
     Failed (AxiosError None (Some ''ECONNREFUSED'') ''connect ECONNREFUSED 127.0.0.1:2358'')"

definition example_echo :: "Judge0SubmissionRequest \<Rightarrow> Outcome" where
  "example_echo request =
     Responded \<lparr>j0_stdout = Some ''RllJOiBqdWRnZTAtYnJpZGdlIHJlcGxhY2VzIC9tbnQvZGF0YSB0byAuLwoK'',
                j0_stderr = None, compile_output = None, message = None,
                status = Some \<lparr>status_id = 3, description = ''Accepted''\<rparr>,
                post_execution_filesystem = None\<rparr>"

definition example_overloaded :: "Judge0SubmissionRequest \<Rightarrow> Outcome" where
  "example_overloaded request =
     Failed (AxiosError
       (Some \<lparr>http_status = 503,
              http_data = Some \<lparr>body_error = Some (jsString ''queue is full''),
                               body_message = None\<rparr>\<rparr>)
       (Some ''ERR_BAD_RESPONSE'') ''Request failed with status code 503'')"

definition example_timeout :: "Judge0SubmissionRequest \<Rightarrow> Outcome" where
  "example_timeout request =
     Failed (AxiosError None (Some ''ECONNABORTED'') ''timeout of 60000ms exceeded'')"

definition example_empty_error :: "Judge0SubmissionRequest \<Rightarrow> Outcome" where
  "example_empty_error request =
     Failed (AxiosError
       (Some \<lparr>http_status = 500,
              http_data = Some \<lparr>body_error = Some (jsString []),
                               body_message = Some (jsString ''worker died'')\<rparr>\<rparr>)
       (Some ''ERR_BAD_RESPONSE'') ''Request failed with status code 500'')"

definition example_no_detail :: "Judge0SubmissionRequest \<Rightarrow> Outcome" where
  "example_no_detail request =
     Failed (AxiosError
       (Some \<lparr>http_status = 502, http_data = Some \<lparr>body_error = None, body_message = None\<rparr>\<rparr>)
       (Some ''ERR_BAD_RESPONSE'') ''Request failed with status code 502'')"

definition example_no_body :: "Judge0SubmissionRequest \<Rightarrow> Outcome" where
  "example_no_body request =
     Failed (AxiosError (Some \<lparr>http_status = 504, http_data = None\<rparr>)
       (Some ''ERR_BAD_RESPONSE'') ''Request failed with status code 504'')"

definition example_network :: "Judge0SubmissionRequest \<Rightarrow> Outcome" where
  "example_network request = Failed (AxiosError None (Some ''ERR_NETWORK'') ''Network Error'')"

definition example_thrown :: "Judge0SubmissionRequest \<Rightarrow> Outcome" where
  "example_thrown request = Failed NotAnError"

text \<open>
  A codec for the worked examples: a date is printed as its milliseconds in decimal,
  and the metadata as the JSON object that \<open>JSON.stringify\<close> prints for a name and a
  date without quotes, backslashes and control characters; \<open>example_parse\<close> reads that
  form back and rejects every other text.
\<close>

definition quote :: string where
  "quote = [CHR 0x22]"

definition number :: "string \<Rightarrow> nat" where
  "number s = foldl (\<lambda>n ch. 10 * n + (of_char ch - 48)) 0 s"

definition isDigit :: "char \<Rightarrow> bool" where
  "isDigit ch = (48 \<le> (of_char ch :: nat) \<and> (of_char ch :: nat) \<le> 57)"

definition afterPrefix :: "string \<Rightarrow> string \<Rightarrow> string option" where
  "afterPrefix p s = (if take (length p) s = p then Some (drop (length p) s) else None)"

definition example_stringify :: "FileMetadata \<Rightarrow> string" where
  "example_stringify m =
     ''{'' @ quote @ ''name'' @ quote @ '':'' @ quote @ meta_name m @ quote @
     '','' @ quote @ ''size'' @ quote @ '':'' @ digits (meta_size m) @
     '','' @ quote @ ''createdAt'' @ quote @ '':'' @ quote @ meta_createdAt m @ quote @ ''}''"

definition example_parse :: "string \<Rightarrow> FileMetadata option" where
  "example_parse s =
     (case afterPrefix (''{'' @ quote @ ''name'' @ quote @ '':'' @ quote) s of
        None \<Rightarrow> None
      | Some s1 \<Rightarrow>
          (let name = takeWhile (\<lambda>ch. ch \<noteq> CHR 0x22) s1
           in case afterPrefix (quote @ '','' @ quote @ ''size'' @ quote @ '':'')
                     (drop (length name) s1) of
                None \<Rightarrow> None
              | Some s2 \<Rightarrow>
                  (let size = takeWhile isDigit s2
                   in case afterPrefix ('','' @ quote @ ''createdAt'' @ quote @ '':'' @ quote)
                             (drop (length size) s2) of
                        None \<Rightarrow> None
                      | Some s3 \<Rightarrow>
                          (let created = takeWhile (\<lambda>ch. ch \<noteq> CHR 0x22) s3
                           in if size \<noteq> [] \<and> drop (length created) s3 = quote @ ''}''
                              then Some \<lparr>meta_name = name, meta_size = number size,
                                         meta_createdAt = created\<rparr>
                              else None))))"

definition example_codec :: codec where
  "example_codec =
     \<lparr>toISOString = (\<lambda>t. digits (nat t)),
      parseDate = (\<lambda>s. int (number s)),
      JSON_stringify = example_stringify,
      JSON_parse = example_parse\<rparr>"

section \<open>Facts about MemoryStorage\<close>

lemma map_get_map_set: "map_get (map_set k v ps) k = Some v"
  by (induction ps) auto

lemma getSession_valid:
  assumes "isSessionValid ttl st now sessionId"
  shows "\<exists>session. st sessionId = Some session \<and>
           getSession ttl st now sessionId =
             (st(sessionId \<mapsto> session\<lparr>session_lastAccessedAt := now\<rparr>),
              Some (session\<lparr>session_lastAccessedAt := now\<rparr>))"
  using assms by (auto simp: getSession_def isSessionValid_def Let_def split: option.splits)

lemma getSession_invalid:
  assumes "\<not> isSessionValid ttl st now sessionId"
  shows "getSession ttl st now sessionId = (st(sessionId := None), None)"
  using assms by (auto simp: getSession_def isSessionValid_def split: option.splits)

lemma addFile_store:
  "fst (addFile ttl st now fileId sessionId name data) sessionId =
     Some ((case snd (getSession ttl st now sessionId) of
              Some s \<Rightarrow> s
            | None \<Rightarrow> \<lparr>session_id = sessionId, session_files = [],
                       session_createdAt = now, session_lastAccessedAt = now\<rparr>)
           \<lparr>session_files := map_set fileId
              \<lparr>file_id = fileId, file_name = name, file_data = data,
               file_size = length data, file_createdAt = now\<rparr>
              (session_files (case snd (getSession ttl st now sessionId) of
              Some s \<Rightarrow> s
            | None \<Rightarrow> \<lparr>session_id = sessionId, session_files = [],
                       session_createdAt = now, session_lastAccessedAt = now\<rparr>))\<rparr>)"
  by (simp add: addFile_def Let_def split: prod.splits)

lemma getSession_lastAccessed:
  "snd (getSession ttl st now sessionId) = Some s \<Longrightarrow> session_lastAccessedAt s = now"
  by (auto simp: getSession_def Let_def split: option.splits if_splits)

lemma addFile_touched:
  "\<exists>s. fst (addFile ttl st now fileId sessionId name data) sessionId = Some s
       \<and> session_lastAccessedAt s = now
       \<and> map_get (session_files s) fileId =
           Some \<lparr>file_id = fileId, file_name = name, file_data = data,
                 file_size = length data, file_createdAt = now\<rparr>"
  using getSession_lastAccessed [of ttl st now sessionId]
  by (cases "snd (getSession ttl st now sessionId)")
     (simp_all add: addFile_store map_get_map_set)

lemma addFile_result: "snd (addFile ttl st now fileId sessionId name data) = fileId"
  by (simp add: addFile_def Let_def split: prod.splits)

lemma getFile_valid:
  assumes "st sessionId = Some s" and "now - session_lastAccessedAt s < ttl"
  shows "getFile ttl st now sessionId fileId =
           (st(sessionId \<mapsto> s\<lparr>session_lastAccessedAt := now\<rparr>), map_get (session_files s) fileId)"
  using assms by (simp add: getFile_def getSession_def isSessionValid_def Let_def)

lemma memory_roundtrip:
  assumes "later - now < ttl"
  shows "snd (getFile ttl (fst (addFile ttl st now fileId sessionId name data)) later
                 sessionId (snd (addFile ttl st now fileId sessionId name data)))
         = Some \<lparr>file_id = fileId, file_name = name, file_data = data,
                 file_size = length data, file_createdAt = now\<rparr>"
proof -
  from addFile_touched [of ttl st now fileId sessionId name data]
  obtain s where s: "fst (addFile ttl st now fileId sessionId name data) sessionId = Some s"
    and l: "session_lastAccessedAt s = now"
    and f: "map_get (session_files s) fileId =
           Some \<lparr>file_id = fileId, file_name = name, file_data = data,
                 file_size = length data, file_createdAt = now\<rparr>"
    by blast
  from assms l have v: "later - session_lastAccessedAt s < ttl" by simp
  from getFile_valid [of "fst (addFile ttl st now fileId sessionId name data)" sessionId s
         later ttl fileId, OF s v] f
  show ?thesis
    by (simp add: addFile_result)
qed

lemma memory_adoption:
  assumes "\<not> isSessionValid ttl st now X"
  shows "addFile ttl st now fileId X name data =
           (st(X \<mapsto> \<lparr>session_id = X,
                      session_files = [(fileId, \<lparr>file_id = fileId, file_name = name,
                         file_data = data, file_size = length data, file_createdAt = now\<rparr>)],
                      session_createdAt = now, session_lastAccessedAt = now\<rparr>), fileId)"
  using getSession_invalid [OF assms] by (simp add: addFile_def)

lemma isSessionValid_after_addFile:
  "isSessionValid ttl (fst (addFile ttl st now fileId X name data)) later X = (later - now < ttl)"
  using addFile_touched [of ttl st now fileId X name data]
  by (auto simp: isSessionValid_def)

lemma memory_absent_reads:
  assumes "\<not> isSessionValid ttl st now sessionId"
  shows "getFile ttl st now sessionId fileId = (st(sessionId := None), None)"
    and "listFiles C ttl st now sessionId = (st(sessionId := None), [])"
  using getSession_invalid [OF assms] by (simp_all add: getFile_def listFiles_def)

lemma unknown_invalid: "st sessionId = None \<Longrightarrow> \<not> isSessionValid ttl st now sessionId"
  by (simp add: isSessionValid_def)

lemma expired_invalid:
  "st sessionId = Some s \<Longrightarrow> ttl \<le> now - session_lastAccessedAt s
     \<Longrightarrow> \<not> isSessionValid ttl st now sessionId"
  by (simp add: isSessionValid_def)


text \<open>
  C10. In the in-memory backend, \<open>getFile\<close> on a currently valid session with a file id
  that the session does not hold returns null, and still writes to the store: the
  session's \<open>lastAccessedAt\<close> becomes the time of the call, so the failed read extends the
  session's lifetime. Nothing else of the store changes.
\<close>

theorem getFile_unknown_file_touches_session:
  assumes "isSessionValid ttl st now sessionId"
    and "st sessionId = Some session"
    and "map_get (session_files session) fileId = None"
  shows "getFile ttl st now sessionId fileId =
           (st(sessionId \<mapsto> session\<lparr>session_lastAccessedAt := now\<rparr>), None)
         \<and> isSessionValid ttl (fst (getFile ttl st now sessionId fileId)) later sessionId
           = (later - now < ttl)"
proof -
  from getSession_valid [OF assms(1)] assms(2)
  have g: "getSession ttl st now sessionId =
             (st(sessionId \<mapsto> session\<lparr>session_lastAccessedAt := now\<rparr>),
              Some (session\<lparr>session_lastAccessedAt := now\<rparr>))"
    by auto
  have r: "getFile ttl st now sessionId fileId =
           (st(sessionId \<mapsto> session\<lparr>session_lastAccessedAt := now\<rparr>), None)"
    using assms(3) by (simp add: getFile_def g)
  then show ?thesis
    by (simp add: isSessionValid_def)
qed

text \<open>
  An instance: a session last touched at 0 and read at 50 with a 100 ms lifetime would
  have expired at 100; after the failed read it is valid at 120 and has
  \<open>lastAccessedAt = 50\<close>.
\<close>

theorem getFile_unknown_file_touches_session_witness:
  "isSessionValid 100 (fst (createSession Map.empty 0 ''s1'')) 50 ''s1''
   \<and> getFile 100 (fst (createSession Map.empty 0 ''s1'')) 50 ''s1'' ''nofile'' =
       (Map.empty(''s1'' \<mapsto> \<lparr>session_id = ''s1'', session_files = [],
                    session_createdAt = 0, session_lastAccessedAt = 50\<rparr>), None)
   \<and> \<not> isSessionValid 100 (fst (createSession Map.empty 0 ''s1'')) 120 ''s1''
   \<and> isSessionValid 100
        (fst (getFile 100 (fst (createSession Map.empty 0 ''s1'')) 50 ''s1'' ''nofile''))
        120 ''s1''"
proof -
  let ?st = "fst (createSession Map.empty 0 ''s1'')"
  let ?s = "\<lparr>session_id = ''s1'', session_files = [],
             session_createdAt = 0, session_lastAccessedAt = 0\<rparr>"
  have v: "isSessionValid 100 ?st 50 ''s1''"
    by (simp add: isSessionValid_def createSession_def)
  have s: "?st ''s1'' = Some ?s"
    by (simp add: createSession_def)
  have f: "map_get (session_files ?s) ''nofile'' = None"
    by simp
  have e: "\<not> isSessionValid 100 ?st 120 ''s1''"
    by (simp add: isSessionValid_def createSession_def)
  have u: "?st(''s1'' \<mapsto> ?s\<lparr>session_lastAccessedAt := 50\<rparr>) =
           Map.empty(''s1'' \<mapsto> \<lparr>session_id = ''s1'', session_files = [],
                    session_createdAt = 0, session_lastAccessedAt = 50\<rparr>)"
    by (simp add: createSession_def)
  note t = getFile_unknown_file_touches_session [OF v s f, of 120]
  have a: "getFile 100 ?st 50 ''s1'' ''nofile'' =
          (?st(''s1'' \<mapsto> ?s\<lparr>session_lastAccessedAt := 50\<rparr>), None)"
    by (rule conjunct1 [OF t])
  have b: "isSessionValid 100 (fst (getFile 100 ?st 50 ''s1'' ''nofile'')) 120 ''s1''"
    using conjunct2 [OF t] by simp
  show ?thesis
    using v e b unfolding a u by simp
qed

section \<open>Facts about the path translation\<close>

lemma matchPattern_eq: "matchPattern prev s = matchBare prev s"
  by (auto simp: matchPattern_def matchBare_def wordBoundary_def isWordChar_def prefix_def)

lemma matchSlash_imp: "matchSlash prev s \<Longrightarrow> matchBare prev s"
  by (auto simp: matchSlash_def matchBare_def MNT_DATA_def wordBoundary_def isWordChar_def prefix_def)

lemma matchSlash_length: "matchSlash prev s \<Longrightarrow> 10 \<le> length s"
  by (auto simp: matchSlash_def MNT_DATA_def prefix_def)

lemma matchBare_length: "matchBare prev s \<Longrightarrow> 9 \<le> length s"
  by (auto simp: matchBare_def MNT_DATA_def prefix_def)

lemma length_replaceSlash: "length (replaceSlash prev s) \<le> length s"
proof (induction prev s rule: replaceSlash.induct)
  case (1 prev)
  then show ?case by simp
next
  case (2 prev c cs)
  then show ?case
    using matchSlash_length [of prev "c # cs"] by (cases "matchSlash prev (c # cs)") auto
qed

lemma length_replaceBare: "length (replaceBare prev s) \<le> length s"
proof (induction prev s rule: replaceBare.induct)
  case (1 prev)
  then show ?case by simp
next
  case (2 prev c cs)
  then show ?case
    using matchBare_length [of prev "c # cs"] by (cases "matchBare prev (c # cs)") auto
qed

lemma replaceSlash_changed:
  "replaceSlash prev s \<noteq> s \<Longrightarrow> length (replaceSlash prev s) < length s"
proof (induction prev s rule: replaceSlash.induct)
  case (1 prev)
  then show ?case by simp
next
  case (2 prev c cs)
  show ?case
  proof (cases "matchSlash prev (c # cs)")
    case True
    have "length (replaceSlash (Some CHR ''/'') (drop 9 cs)) \<le> length (drop 9 cs)"
      by (rule length_replaceSlash)
    moreover from True have "9 \<le> length cs"
      by (auto simp: matchSlash_def MNT_DATA_def prefix_def)
    ultimately show ?thesis using True by simp
  next
    case False
    with 2 show ?thesis by simp
  qed
qed

lemma no_match_unchanged:
  "\<not> pathPattern_test prev s \<Longrightarrow> replaceSlash prev s = s \<and> replaceBare prev s = s"
proof (induction prev s rule: pathPattern_test.induct)
  case (1 prev)
  then show ?case by simp
next
  case (2 prev c cs)
  then have "\<not> matchBare prev (c # cs)" and "\<not> pathPattern_test (Some c) cs"
    by (simp_all add: matchPattern_eq)
  with 2 matchSlash_imp [of prev "c # cs"] show ?case by auto
qed

lemma match_shrinks:
  "pathPattern_test prev s \<Longrightarrow> length (replaceBare prev s) < length s"
proof (induction prev s rule: replaceBare.induct)
  case (1 prev)
  then show ?case by simp
next
  case (2 prev c cs)
  show ?case
  proof (cases "matchBare prev (c # cs)")
    case True
    have "length (replaceBare (Some CHR ''a'') (drop 8 cs)) \<le> length (drop 8 cs)"
      by (rule length_replaceBare)
    moreover from True have "8 \<le> length cs"
      by (auto simp: matchBare_def MNT_DATA_def prefix_def)
    ultimately show ?thesis using True by simp
  next
    case False
    with 2 show ?thesis by (simp add: matchPattern_eq)
  qed
qed

lemma test_iff_changed: "pathPattern_test None code \<longleftrightarrow> translatePaths code \<noteq> code"
proof
  assume t: "pathPattern_test None code"
  show "translatePaths code \<noteq> code"
  proof (cases "replaceSlash None code = code")
    case True
    with match_shrinks [OF t] show ?thesis by (auto simp: translatePaths_def)
  next
    case False
    from replaceSlash_changed [OF False] length_replaceBare [of None "replaceSlash None code"]
    have "length (translatePaths code) < length code" by (simp add: translatePaths_def)
    then show ?thesis by auto
  qed
next
  assume "translatePaths code \<noteq> code"
  with no_match_unchanged [of None code] show "pathPattern_test None code"
    unfolding translatePaths_def by metis
qed

lemma replaceBare_copied:
  "replaceBare prev s = w @ r \<Longrightarrow> CHR ''.'' \<notin> set w \<Longrightarrow>
     \<exists>s2. s = w @ s2 \<and> r = replaceBare (prevAfter prev w) s2"
proof (induction w arbitrary: prev s)
  case Nil
  then show ?case by (simp add: prevAfter_def)
next
  case (Cons a w)
  show ?case
  proof (cases s)
    case Nil
    with Cons.prems show ?thesis by simp
  next
    case (Cons d ds)
    with Cons.prems have nm: "\<not> matchBare prev (d # ds)"
      by (auto split: if_splits)
    with Cons Cons.prems have "a = d" and "replaceBare (Some d) ds = w @ r"
      by auto
    from Cons.IH [OF this(2)] Cons.prems(2)
    obtain s2 where "ds = w @ s2" and "r = replaceBare (prevAfter (Some d) w) s2"
      by auto
    with Cons \<open>a = d\<close> show ?thesis
      by (auto simp: prevAfter_def)
  qed
qed

lemma wordBoundary_replaceBare:
  "wordBoundary (replaceBare prev s) \<Longrightarrow> wordBoundary s"
  by (cases s) (auto simp: wordBoundary_def matchBare_def MNT_DATA_def isWordChar_def prefix_def split: if_splits)

lemma test_after_dot: "pathPattern_test (Some CHR ''.'') s \<Longrightarrow> pathPattern_test prev s"
  by (cases s) (auto simp: matchPattern_def lookbehind_ok_def)

lemma no_match_left: "\<not> pathPattern_test prev (replaceBare prev s)"
proof (induction prev s rule: replaceBare.induct)
  case (1 prev)
  then show ?case by simp
next
  case (2 prev c cs)
  show ?case
  proof (cases "matchBare prev (c # cs)")
    case True
    with 2 have "\<not> pathPattern_test (Some CHR ''a'') (replaceBare (Some CHR ''a'') (drop 8 cs))"
      by simp
    with test_after_dot have "\<not> pathPattern_test (Some CHR ''.'') (replaceBare (Some CHR ''a'') (drop 8 cs))"
      by blast
    with True show ?thesis
      by (simp add: matchPattern_def MNT_DATA_def)
  next
    case False
    with 2 have ih: "\<not> pathPattern_test (Some c) (replaceBare (Some c) cs)"
      by simp
    have "\<not> matchBare prev (c # replaceBare (Some c) cs)"
    proof
      assume m: "matchBare prev (c # replaceBare (Some c) cs)"
      then obtain r where c: "c = CHR ''/''" and r: "replaceBare (Some c) cs = ''mnt/data'' @ r"
        and b: "wordBoundary r" and l: "lookbehind_ok prev"
        by (auto simp: matchBare_def MNT_DATA_def prefix_def)
      from replaceBare_copied [OF r]
      obtain s2 where s2: "cs = ''mnt/data'' @ s2" and r2: "r = replaceBare (prevAfter (Some c) ''mnt/data'') s2"
        by auto
      from b r2 have "wordBoundary s2"
        using wordBoundary_replaceBare by blast
      with c s2 l have "matchBare prev (c # cs)"
        by (simp add: matchBare_def MNT_DATA_def)
      with False show False ..
    qed
    with ih False show ?thesis
      by (simp add: matchPattern_eq)
  qed
qed


text \<open>
  The two passes as one scan. What precedes the text matters to either pass only at a
  match at the very start, and only by whether it is \<open>.\<close>; the second pass finds in the
  output of the first the matches it would find in the input.
\<close>

lemma replaceSlash_prev:
  assumes "lookbehind_ok p = lookbehind_ok q \<or> \<not> prefix MNT_DATA s"
  shows "replaceSlash p s = replaceSlash q s"
proof -
  from assms have "matchSlash p s = matchSlash q s"
    using append_prefixD [of MNT_DATA "''/''" s] by (auto simp: matchSlash_def)
  then show ?thesis by (cases s) auto
qed

lemma replaceBare_prev:
  "lookbehind_ok p = lookbehind_ok q \<or> \<not> prefix MNT_DATA s \<Longrightarrow> replaceBare p s = replaceBare q s"
  by (cases s) (auto simp: matchBare_def)

lemma replaceSlash_copied:
  "replaceSlash prev s = w @ r \<Longrightarrow> CHR ''.'' \<notin> set w \<Longrightarrow>
     \<exists>s2. s = w @ s2 \<and> r = replaceSlash (prevAfter prev w) s2"
proof (induction w arbitrary: prev s)
  case Nil
  then show ?case by (simp add: prevAfter_def)
next
  case (Cons a w)
  show ?case
  proof (cases s)
    case Nil
    with Cons.prems show ?thesis by simp
  next
    case (Cons d ds)
    with Cons.prems have nm: "\<not> matchSlash prev (d # ds)"
      by (auto split: if_splits)
    with Cons Cons.prems have "a = d" and "replaceSlash (Some d) ds = w @ r"
      by auto
    from Cons.IH [OF this(2)] Cons.prems(2)
    obtain s2 where "ds = w @ s2" and "r = replaceSlash (prevAfter (Some d) w) s2"
      by auto
    with Cons \<open>a = d\<close> show ?thesis
      by (auto simp: prevAfter_def)
  qed
qed

lemma wordBoundary_replaceSlash:
  "wordBoundary (replaceSlash prev s) \<Longrightarrow> wordBoundary s"
  by (cases s) (auto simp: wordBoundary_def matchSlash_def MNT_DATA_def isWordChar_def prefix_def split: if_splits)

lemma prefix_replaceSlash:
  assumes "prefix MNT_DATA (replaceSlash p s)" shows "prefix MNT_DATA s"
proof -
  from assms obtain r where "replaceSlash p s = MNT_DATA @ r"
    by (auto simp: prefix_def)
  from replaceSlash_copied [OF this] show ?thesis
    by (auto simp: MNT_DATA_def)
qed

lemma scan_prev:
  assumes "lookbehind_ok p = lookbehind_ok q \<or> \<not> prefix MNT_DATA s"
  shows "replaceBare p (replaceSlash p s) = replaceBare q (replaceSlash q s)"
proof -
  have e: "replaceSlash p s = replaceSlash q s"
    using assms by (rule replaceSlash_prev)
  from assms prefix_replaceSlash [of q s]
  have "lookbehind_ok p = lookbehind_ok q \<or> \<not> prefix MNT_DATA (replaceSlash q s)"
    by blast
  then have "replaceBare p (replaceSlash q s) = replaceBare q (replaceSlash q s)"
    by (rule replaceBare_prev)
  with e show ?thesis by simp
qed

lemma scan_copy:
  assumes "\<not> matchBare p (c # s)"
  shows "replaceBare p (replaceSlash p (c # s)) = c # replaceBare (Some c) (replaceSlash (Some c) s)"
proof -
  from assms matchSlash_imp [of p "c # s"] have e: "replaceSlash p (c # s) = c # replaceSlash (Some c) s"
    by auto
  have "\<not> matchBare p (c # replaceSlash (Some c) s)"
  proof
    assume m: "matchBare p (c # replaceSlash (Some c) s)"
    then obtain r where c: "c = CHR ''/''" and r: "replaceSlash (Some c) s = ''mnt/data'' @ r"
      and b: "wordBoundary r" and l: "lookbehind_ok p"
      by (auto simp: matchBare_def MNT_DATA_def prefix_def)
    from replaceSlash_copied [OF r]
    obtain s2 where s2: "s = ''mnt/data'' @ s2" and r2: "r = replaceSlash (prevAfter (Some c) ''mnt/data'') s2"
      by auto
    from b r2 have "wordBoundary s2"
      using wordBoundary_replaceSlash by blast
    with c s2 l have "matchBare p (c # s)"
      by (simp add: matchBare_def MNT_DATA_def)
    with assms show False ..
  qed
  with e show ?thesis by simp
qed

lemma translatePaths_copy:
  assumes "\<not> prefix ''/mnt/data'' (c # s)" and "\<not> prefix ''./mnt/data'' (c # s)"
  shows "translatePaths (c # s) = c # translatePaths s"
proof -
  from assms(1) have "\<not> matchBare None (c # s)"
    unfolding matchBare_def MNT_DATA_def by blast
  from scan_copy [OF this]
  have "translatePaths (c # s) = c # replaceBare (Some c) (replaceSlash (Some c) s)"
    by (simp add: translatePaths_def)
  moreover from assms(2) have "lookbehind_ok (Some c) = lookbehind_ok None \<or> \<not> prefix MNT_DATA s"
    by (auto simp: lookbehind_ok_def MNT_DATA_def)
  from scan_prev [OF this] have "replaceBare (Some c) (replaceSlash (Some c) s) = translatePaths s"
    by (simp add: translatePaths_def)
  ultimately show ?thesis by simp
qed

lemma translatePaths_slash:
  "translatePaths (''/mnt/data/'' @ v) = ''./'' @ translatePaths v"
proof -
  have "replaceSlash None (''/mnt/data/'' @ v) = ''./'' @ replaceSlash (Some CHR ''/'') v"
    by (simp add: matchSlash_def MNT_DATA_def lookbehind_ok_def)
  moreover have "replaceBare None (''./'' @ replaceSlash (Some CHR ''/'') v)
      = ''./'' @ replaceBare (Some CHR ''/'') (replaceSlash (Some CHR ''/'') v)"
    by (simp add: matchBare_def MNT_DATA_def lookbehind_ok_def)
  moreover have "replaceBare (Some CHR ''/'') (replaceSlash (Some CHR ''/'') v) = translatePaths v"
    unfolding translatePaths_def by (rule scan_prev) (simp add: lookbehind_ok_def)
  ultimately show ?thesis by (simp add: translatePaths_def)
qed

lemma translatePaths_bare:
  assumes "wordBoundary v" and "\<not> prefix ''/'' v"
  shows "translatePaths (''/mnt/data'' @ v) = ''.'' @ translatePaths v"
proof -
  have a: "replaceSlash None (''/mnt/data'' @ v) = ''/mnt/data'' @ replaceSlash (Some CHR ''a'') v"
    using assms(2) by (simp add: matchSlash_def MNT_DATA_def lookbehind_ok_def)
  from assms(2) have "\<not> matchSlash (Some CHR ''a'') v"
    by (auto simp: matchSlash_def MNT_DATA_def prefix_def)
  with assms(1) have "wordBoundary (replaceSlash (Some CHR ''a'') v)"
    by (cases v) (auto simp: wordBoundary_def)
  then have "replaceBare None (''/mnt/data'' @ replaceSlash (Some CHR ''a'') v)
      = ''.'' @ replaceBare (Some CHR ''a'') (replaceSlash (Some CHR ''a'') v)"
    by (simp add: matchBare_def MNT_DATA_def lookbehind_ok_def)
  moreover have "replaceBare (Some CHR ''a'') (replaceSlash (Some CHR ''a'') v) = translatePaths v"
    unfolding translatePaths_def by (rule scan_prev) (simp add: lookbehind_ok_def)
  ultimately show ?thesis using a by (simp add: translatePaths_def)
qed

lemma translatePaths_word:
  assumes "\<not> wordBoundary v"
  shows "translatePaths (''/mnt/data'' @ v) = ''/mnt/data'' @ translatePaths v"
proof -
  from assms have "\<not> matchBare None (''/mnt/data'' @ v)"
    by (simp add: matchBare_def)
  from scan_copy [of None "CHR ''/''" "''mnt/data'' @ v"] this
  have "translatePaths (''/mnt/data'' @ v)
      = CHR ''/'' # replaceBare (Some CHR ''/'') (replaceSlash (Some CHR ''/'') (''mnt/data'' @ v))"
    by (simp add: translatePaths_def)
  moreover have "replaceBare (Some CHR ''/'') (replaceSlash (Some CHR ''/'') (''mnt/data'' @ v))
      = translatePaths (''mnt/data'' @ v)"
    unfolding translatePaths_def by (rule scan_prev) (simp add: lookbehind_ok_def)
  moreover have "translatePaths (''mnt/data'' @ v) = ''mnt/data'' @ translatePaths v"
    by (simp add: translatePaths_copy)
  ultimately show ?thesis by simp
qed

lemma translatePaths_dot:
  "translatePaths (''./mnt/data'' @ v) = ''./mnt/data'' @ translatePaths v"
proof -
  have "translatePaths (''./mnt/data'' @ v)
      = CHR ''.'' # replaceBare (Some CHR ''.'') (replaceSlash (Some CHR ''.'') (''/mnt/data'' @ v))"
    using scan_copy [of None "CHR ''.''" "''/mnt/data'' @ v"]
    by (simp add: translatePaths_def matchBare_def MNT_DATA_def)
  moreover have "replaceBare (Some CHR ''.'') (replaceSlash (Some CHR ''.'') (''/mnt/data'' @ v))
      = CHR ''/'' # replaceBare (Some CHR ''/'') (replaceSlash (Some CHR ''/'') (''mnt/data'' @ v))"
    using scan_copy [of "Some CHR ''.''" "CHR ''/''" "''mnt/data'' @ v"]
    by (simp add: matchBare_def lookbehind_ok_def)
  moreover have "replaceBare (Some CHR ''/'') (replaceSlash (Some CHR ''/'') (''mnt/data'' @ v))
      = translatePaths (''mnt/data'' @ v)"
    unfolding translatePaths_def by (rule scan_prev) (simp add: lookbehind_ok_def)
  moreover have "translatePaths (''mnt/data'' @ v) = ''mnt/data'' @ translatePaths v"
    by (simp add: translatePaths_copy)
  ultimately show ?thesis by simp
qed

lemma isWordChar_chars:
  "isWordChar c \<longleftrightarrow>
     c \<in> set ''abcdefghijklmnopqrstuvwxyzABCDEFGHIJKLMNOPQRSTUVWXYZ0123456789_''"
proof
  assume "c \<in> set ''abcdefghijklmnopqrstuvwxyzABCDEFGHIJKLMNOPQRSTUVWXYZ0123456789_''"
  then show "isWordChar c"
    by (auto simp: isWordChar_def)
next
  assume w: "isWordChar c"
  define n where "n = (of_char c :: nat)"
  have c: "c = char_of n" by (simp add: n_def)
  from w have "n \<in> {48..57} \<union> {65..90} \<union> {95} \<union> {97..122}"
    by (auto simp: isWordChar_def n_def Let_def)
  then have "n \<in> set ([48..<58] @ [65..<91] @ [95] @ [97..<123])"
    unfolding set_append set_upt by auto
  then have "char_of n \<in> char_of ` set ([48..<58] @ [65..<91] @ [95] @ [97..<123])"
    by (rule imageI)
  also have "char_of ` set ([48..<58] @ [65..<91] @ [95] @ [97..<123]) = set (map char_of ([48..<58] @ [65..<91] @ [95] @ [97..<123] :: nat list))"
    by simp
  also have "map char_of ([48..<58] @ [65..<91] @ [95] @ [97..<123] :: nat list) = ''0123456789ABCDEFGHIJKLMNOPQRSTUVWXYZ_abcdefghijklmnopqrstuvwxyz''"
    by (simp add: upt_rec char_of_eq_iff)
  finally show "c \<in> set ''abcdefghijklmnopqrstuvwxyzABCDEFGHIJKLMNOPQRSTUVWXYZ0123456789_''"
    unfolding c by auto
qed

text \<open>
  The equations of the scan determine it: a function that satisfies them is the
  rewrite.
\<close>

lemma translatePaths_unique:
  assumes e: "f [] = []"
    and sl: "\<And>v. f (''/mnt/data/'' @ v) = ''./'' @ f v"
    and b0: "f ''/mnt/data'' = ''.''"
    and b1: "\<And>c w. \<not> isWordChar c \<Longrightarrow> c \<noteq> CHR ''/'' \<Longrightarrow>
               f (''/mnt/data'' @ c # w) = ''.'' @ f (c # w)"
    and b2: "\<And>c w. isWordChar c \<Longrightarrow> f (''/mnt/data'' @ c # w) = ''/mnt/data'' @ f (c # w)"
    and dt: "\<And>v. f (''./mnt/data'' @ v) = ''./mnt/data'' @ f v"
    and cp: "\<And>c s. \<not> prefix ''/mnt/data'' (c # s) \<Longrightarrow> \<not> prefix ''./mnt/data'' (c # s) \<Longrightarrow>
               f (c # s) = c # f s"
  shows "f code = translatePaths code"
proof (induction code rule: length_induct)
  case (1 code)
  then have ih: "\<And>ys. length ys < length code \<Longrightarrow> f ys = translatePaths ys"
    by blast
  consider (empty) "code = []"
    | (slash) v where "code = ''/mnt/data/'' @ v"
    | (bare) "code = ''/mnt/data''"
    | (other) c w where "code = ''/mnt/data'' @ c # w" and "\<not> isWordChar c" and "c \<noteq> CHR ''/''"
    | (word) c w where "code = ''/mnt/data'' @ c # w" and "isWordChar c"
    | (dot) v where "code = ''./mnt/data'' @ v"
    | (copy) c s where "code = c # s" and "\<not> prefix ''/mnt/data'' (c # s)"
        and "\<not> prefix ''./mnt/data'' (c # s)"
  proof (cases "prefix ''/mnt/data'' code")
    case True
    then obtain v where v: "code = ''/mnt/data'' @ v"
      by (auto simp: prefix_def)
    show ?thesis
    proof (cases v)
      case Nil
      with v bare show ?thesis by simp
    next
      case (Cons c w)
      show ?thesis
      proof (cases "c = CHR ''/''")
        case True
        with v Cons slash [of w] show ?thesis by simp
      next
        case False
        with v Cons other [of c w] word [of c w] show ?thesis
          by (cases "isWordChar c") auto
      qed
    qed
  next
    case False
    show ?thesis
    proof (cases "prefix ''./mnt/data'' code")
      case True
      then obtain v where "code = ''./mnt/data'' @ v"
        by (auto simp: prefix_def)
      with dot show ?thesis by blast
    next
      case nd: False
      show ?thesis
      proof (cases code)
        case Nil
        with empty show ?thesis .
      next
        case (Cons c s)
        with False nd copy [of c s] show ?thesis by simp
      qed
    qed
  qed
  then show ?case
  proof cases
    case empty
    with e show ?thesis by (simp add: translatePaths_def)
  next
    case (slash v)
    with ih [of v] sl [of v] translatePaths_slash [of v] show ?thesis by simp
  next
    case bare
    with b0 translatePaths_bare [of "[]"] e show ?thesis
      by (simp add: translatePaths_def wordBoundary_def)
  next
    case (other c w)
    with ih [of "c # w"] b1 [of c w] translatePaths_bare [of "c # w"] show ?thesis
      by (simp add: wordBoundary_def)
  next
    case (word c w)
    with ih [of "c # w"] b2 [of c w] translatePaths_word [of "c # w"] show ?thesis
      by (simp add: wordBoundary_def)
  next
    case (dot v)
    with ih [of v] dt [of v] translatePaths_dot [of v] show ?thesis by simp
  next
    case (copy c s)
    with ih [of s] cp [of c s] translatePaths_copy [of c s] show ?thesis by simp
  qed
qed

lemmas path_simps =
  translatePaths_def matchSlash_def matchBare_def matchPattern_def lookbehind_ok_def
  MNT_DATA_def wordBoundary_def isWordChar_def

text \<open>
  C2 (as amended). The rewrite acts on every source text as one scan from the left:

  \<^item> a text that begins with \<open>/mnt/data/\<close> has these ten characters replaced by \<open>./\<close>,
    and the rest is rewritten as a text of its own (so \<open>/mnt/data/mnt/data\<close> yields
    \<open>./mnt/data\<close>);
  \<^item> a text that begins with \<open>/mnt/data\<close> followed by the end of the text, or by a
    character that is neither \<open>/\<close> nor a letter, a digit or \<open>_\<close>, has these nine
    characters replaced by \<open>.\<close>, and the rest is rewritten as a text of its own;
  \<^item> \<open>/mnt/data\<close> followed by a letter, a digit or \<open>_\<close> is copied unchanged, and so is
    \<open>./mnt/data\<close>, that is \<open>/mnt/data\<close> immediately preceded by \<open>.\<close>; the rest is
    rewritten as a text of its own;
  \<^item> a first character at which neither \<open>/mnt/data\<close> nor \<open>./mnt/data\<close> begins is
    copied, and the rest is rewritten as a text of its own. So a first character
    other than \<open>.\<close> adjoining the prefix on the left does not block the rewrite.

  The letters, digits and \<open>_\<close> are the 63 ASCII characters of \<open>[A-Za-z0-9_]\<close>. Afterwards
  the source's own detection pattern finds no occurrence in the rewritten text, and a
  source in which it finds none is returned unchanged. \<open>/mnt/data/sub/file\<close> yields
  \<open>./sub/file\<close>, bare \<open>/mnt/data\<close> yields \<open>.\<close>, and \<open>/mnt/database\<close> and \<open>./mnt/data/f\<close>
  are left as they are.
\<close>

theorem translatePaths_rewrites:
  "translatePaths [] = []
   \<and> translatePaths (''/mnt/data/'' @ v) = ''./'' @ translatePaths v
   \<and> translatePaths ''/mnt/data'' = ''.''
   \<and> (\<not> isWordChar c \<and> c \<noteq> CHR ''/'' \<longrightarrow>
         translatePaths (''/mnt/data'' @ c # w) = ''.'' @ translatePaths (c # w))
   \<and> (isWordChar c \<longrightarrow>
         translatePaths (''/mnt/data'' @ c # w) = ''/mnt/data'' @ translatePaths (c # w))
   \<and> translatePaths (''./mnt/data'' @ v) = ''./mnt/data'' @ translatePaths v
   \<and> (\<not> prefix ''/mnt/data'' (c # s) \<and> \<not> prefix ''./mnt/data'' (c # s) \<longrightarrow>
         translatePaths (c # s) = c # translatePaths s)
   \<and> (c \<noteq> CHR ''.'' \<longrightarrow>
         translatePaths (c # ''/mnt/data/'' @ v) = c # ''./'' @ translatePaths v)
   \<and> (isWordChar c \<longleftrightarrow>
         c \<in> set ''abcdefghijklmnopqrstuvwxyzABCDEFGHIJKLMNOPQRSTUVWXYZ0123456789_'')
   \<and> (\<not> pathPattern_test None code \<longrightarrow> translatePaths code = code)
   \<and> \<not> pathPattern_test None (translatePaths code)
   \<and> translatePaths ''/mnt/data/sub/file'' = ''./sub/file''
   \<and> translatePaths ''/mnt/database'' = ''/mnt/database''
   \<and> translatePaths ''./mnt/data/f'' = ''./mnt/data/f''"
proof -
  have e: "translatePaths [] = []"
    by (simp add: translatePaths_def)
  have b0: "translatePaths ''/mnt/data'' = ''.''"
    by (simp add: path_simps)
  have b1: "\<not> isWordChar c \<and> c \<noteq> CHR ''/'' \<longrightarrow>
         translatePaths (''/mnt/data'' @ c # w) = ''.'' @ translatePaths (c # w)"
    using translatePaths_bare [of "c # w"] by (auto simp: wordBoundary_def)
  have b2: "isWordChar c \<longrightarrow>
         translatePaths (''/mnt/data'' @ c # w) = ''/mnt/data'' @ translatePaths (c # w)"
    using translatePaths_word [of "c # w"] by (auto simp: wordBoundary_def)
  have cp: "\<not> prefix ''/mnt/data'' (c # s) \<and> \<not> prefix ''./mnt/data'' (c # s) \<longrightarrow>
         translatePaths (c # s) = c # translatePaths s"
    using translatePaths_copy [of c s] by blast
  have ln: "c \<noteq> CHR ''.'' \<longrightarrow>
         translatePaths (c # ''/mnt/data/'' @ v) = c # ''./'' @ translatePaths v"
  proof
    assume "c \<noteq> CHR ''.''"
    then have "translatePaths (c # ''/mnt/data/'' @ v) = c # translatePaths (''/mnt/data/'' @ v)"
      by (intro translatePaths_copy) simp_all
    then show "translatePaths (c # ''/mnt/data/'' @ v) = c # ''./'' @ translatePaths v"
      using translatePaths_slash [of v] by simp
  qed
  have u: "\<not> pathPattern_test None code \<longrightarrow> translatePaths code = code"
    using test_iff_changed [of code] by blast
  have n: "\<not> pathPattern_test None (translatePaths code)"
    unfolding translatePaths_def by (rule no_match_left)
  have x1: "translatePaths ''/mnt/data/sub/file'' = ''./sub/file''"
    by (simp add: path_simps)
  have x2: "translatePaths ''/mnt/database'' = ''/mnt/database''"
    by (simp add: path_simps)
  have x3: "translatePaths ''./mnt/data/f'' = ''./mnt/data/f''"
    by (simp add: path_simps)
  from e translatePaths_slash [of v] b0 b1 b2 translatePaths_dot [of v] cp ln
    isWordChar_chars [of c] u n x1 x2 x3
  show ?thesis by blast
qed

theorem translatePaths_rewrites_witness:
  "translatePaths ''/mnt/data/mnt/data'' = ''./'' @ translatePaths ''mnt/data''
   \<and> translatePaths ''/mnt/data/mnt/data'' = ''./mnt/data''
   \<and> \<not> isWordChar CHR ''-'' \<and> CHR ''-'' \<noteq> CHR ''/''
   \<and> translatePaths ''/mnt/data-old/f'' = ''.'' @ translatePaths ''-old/f''
   \<and> isWordChar CHR ''_''
   \<and> translatePaths ''/mnt/data_1/f'' = ''/mnt/data'' @ translatePaths ''_1/f''
   \<and> translatePaths ''/mnt/data_1/f'' = ''/mnt/data_1/f''
   \<and> translatePaths ''./mnt/data/mnt/data/f'' = ''./mnt/data'' @ translatePaths ''/mnt/data/f''
   \<and> translatePaths ''./mnt/data/mnt/data/f'' = ''./mnt/data./f''
   \<and> \<not> prefix ''/mnt/data'' ''x/mnt/data'' \<and> \<not> prefix ''./mnt/data'' ''x/mnt/data''
   \<and> translatePaths ''x/mnt/data'' = CHR ''x'' # translatePaths ''/mnt/data''
   \<and> CHR ''x'' \<noteq> CHR ''.''
   \<and> translatePaths ''x/mnt/data/f'' = CHR ''x'' # ''./'' @ translatePaths ''f''
   \<and> translatePaths ''x/mnt/data/f'' = ''x./f''
   \<and> \<not> pathPattern_test None ''ls /mnt/database''
   \<and> translatePaths ''ls /mnt/database'' = ''ls /mnt/database''
   \<and> \<not> pathPattern_test None (translatePaths ''ls /mnt/data/x'')"
proof -
  have h1: "\<not> isWordChar CHR ''-'' \<and> CHR ''-'' \<noteq> CHR ''/''"
    by (simp add: isWordChar_def)
  have h2: "isWordChar CHR ''_''"
    by (simp add: isWordChar_def)
  have h3: "\<not> prefix ''/mnt/data'' ''x/mnt/data'' \<and> \<not> prefix ''./mnt/data'' ''x/mnt/data''"
    by simp
  have h4: "CHR ''x'' \<noteq> CHR ''.''"
    by simp
  have h5: "\<not> pathPattern_test None ''ls /mnt/database''"
    by (simp add: path_simps)
  have t1: "translatePaths ''mnt/data'' = ''mnt/data''"
    and t2: "translatePaths ''_1/f'' = ''_1/f''"
    and t3: "translatePaths ''/mnt/data/f'' = ''./f''"
    and t4: "translatePaths ''f'' = ''f''"
    by (simp_all add: path_simps)
  note a = translatePaths_rewrites [of "''mnt/data''" "CHR ''-''" "''old/f''" "''/mnt/data''"
             "''ls /mnt/database''"]
  note b = translatePaths_rewrites [of "''/mnt/data/f''" "CHR ''_''" "''1/f''" "''/mnt/data''"
             "''ls /mnt/data/x''"]
  note c = translatePaths_rewrites [of "''f''" "CHR ''x''" "[]" "''/mnt/data''" "''ls /mnt/data/x''"]
  from a b c h1 h2 h3 h4 h5 t1 t2 t3 t4 show ?thesis
    by simp
qed

text \<open>
  The claim as first stated fails: a character other than \<open>.\<close> adjoining the prefix on
  the left does not protect it (\<open>x/mnt/data\<close> becomes \<open>x.\<close>), and neither does a longer
  path segment that continues with a non-word character (\<open>/mnt/data-old/f\<close> becomes
  \<open>.-old/f\<close>).
\<close>

theorem translatePaths_not_segment_anchored:
  "translatePaths ''x/mnt/data'' = ''x.''
   \<and> translatePaths ''x/mnt/data'' \<noteq> ''x/mnt/data''
   \<and> translatePaths ''/mnt/data-old/f'' = ''.-old/f''"
  by (simp add: path_simps)
section \<open>Base64 decoding inverts the encoding\<close>

lemma unbase64_b64char: "n < 64 \<Longrightarrow> unbase64 (b64char n) = Some n"
  by (auto simp: b64char_def unbase64_def Let_def char_of_eq_iff take_bit_eq_mod)

lemma b64char_not_pad: "n < 64 \<Longrightarrow> b64char n \<noteq> CHR ''=''"
  by (auto simp: b64char_def char_of_eq_iff take_bit_eq_mod)

lemma sextets_b64char: "n < 64 \<Longrightarrow> sextets (b64char n # cs) = n # sextets cs"
  by (simp add: unbase64_b64char b64char_not_pad)

lemma byte_bound: "unat (a :: byte) < 256"
  using unsigned_less [of a] by simp

lemma sextet_bounds:
  "unat (a :: byte) div 4 < 64"
  "unat (a :: byte) mod 4 * 16 + unat (b :: byte) div 16 < 64"
  "unat (b :: byte) mod 16 * 4 + unat (c :: byte) div 64 < 64"
  "unat (c :: byte) mod 64 < 64"
  "unat (a :: byte) mod 4 * 16 < 64"
  "unat (b :: byte) mod 16 * 4 < 64"
  using byte_bound [of a] byte_bound [of b] byte_bound [of c] by simp_all


lemma octet_first:
  "of_nat (unat a div 4 * 4 + (unat a mod 4 * 16 + unat (b :: byte) div 16) div 16) = (a :: byte)"
proof -
  have "unat b div 16 < 16" using byte_bound [of b] by simp
  then have "(unat a mod 4 * 16 + unat b div 16) div 16 = unat a mod 4" by simp
  then have "unat a div 4 * 4 + (unat a mod 4 * 16 + unat b div 16) div 16 = unat a" by simp
  then show ?thesis by (simp only: of_nat_unat ucast_id)
qed

lemma octet_second:
  "of_nat ((unat (a :: byte) mod 4 * 16 + unat b div 16) mod 16 * 16
      + (unat b mod 16 * 4 + unat (c :: byte) div 64) div 4) = (b :: byte)"
proof -
  have "unat b div 16 < 16" and "unat c div 64 < 4"
    using byte_bound [of b] byte_bound [of c] by simp_all
  then have "(unat a mod 4 * 16 + unat b div 16) mod 16 = unat b div 16"
    and "(unat b mod 16 * 4 + unat c div 64) div 4 = unat b mod 16"
    by simp_all
  then have "(unat a mod 4 * 16 + unat b div 16) mod 16 * 16
      + (unat b mod 16 * 4 + unat c div 64) div 4 = unat b" by simp
  then show ?thesis by (simp only: of_nat_unat ucast_id)
qed

lemma octet_third:
  "of_nat ((unat (b :: byte) mod 16 * 4 + unat c div 64) mod 4 * 64 + unat c mod 64) = (c :: byte)"
proof -
  have "unat c div 64 < 4" using byte_bound [of c] by simp
  then have "(unat b mod 16 * 4 + unat c div 64) mod 4 = unat c div 64" by simp
  then have "(unat b mod 16 * 4 + unat c div 64) mod 4 * 64 + unat c mod 64 = unat c" by simp
  then show ?thesis by (simp only: of_nat_unat ucast_id)
qed

lemma octet_first_pad: "of_nat (unat a div 4 * 4 + (unat a mod 4 * 16) div 16) = (a :: byte)"
  using octet_first [of a 0] by simp

lemma octet_second_pad:
  "of_nat ((unat (a :: byte) mod 4 * 16 + unat b div 16) mod 16 * 16 + (unat b mod 16 * 4) div 4)
     = (b :: byte)"
  using octet_second [of a b 0] by simp

lemma fromBase64_toBase64: "fromBase64 (toBase64 data) = data"
proof (induction data rule: toBase64.induct)
  case (1 a b c rest)
  have "sextets (toBase64 (a # b # c # rest)) =
          (unat a div 4) # (unat a mod 4 * 16 + unat b div 16)
          # (unat b mod 16 * 4 + unat c div 64) # (unat c mod 64) # sextets (toBase64 rest)"
    by (simp only: toBase64.simps append_Cons append_Nil sextets_b64char sextet_bounds)
  then have "octets (sextets (toBase64 (a # b # c # rest))) =
          [a, b, c] @ octets (sextets (toBase64 rest))"
    by (simp only: octets.simps octet_first octet_second octet_third)
  with 1 show ?case
    by (simp only: fromBase64_def append_Cons append_Nil)
next
  case (2 a b)
  have "sextets (toBase64 [a, b]) =
          [unat a div 4, unat a mod 4 * 16 + unat b div 16, unat b mod 16 * 4]"
    by (simp only: toBase64.simps sextets_b64char sextet_bounds) simp
  then have "octets (sextets (toBase64 [a, b])) = [a, b]"
    by (simp only: octets.simps octet_first octet_second_pad)
  then show ?case by (simp only: fromBase64_def)
next
  case (3 a)
  have "sextets (toBase64 [a]) = [unat a div 4, unat a mod 4 * 16]"
    by (simp only: toBase64.simps sextets_b64char sextet_bounds) simp
  then have "octets (sextets (toBase64 [a])) = [a]"
    by (simp only: octets.simps octet_first_pad)
  then show ?case by (simp only: fromBase64_def)
next
  case 4
  then show ?case by (simp add: fromBase64_def)
qed

lemma toBase64_empty: "toBase64 data = [] \<longleftrightarrow> data = []"
  by (induction data rule: toBase64.induct) simp_all

section \<open>Facts about utils.ts and the Judge0 client\<close>


lemma extractEntries_filter:
  "extractEntries names files entries =
     files @ map (\<lambda>e. (flatName (entryName e), getData e))
               (filter (\<lambda>e. \<not> isDirectory e \<and> \<not> startsWithDot (entryName e)
      \<and> flatName (entryName e) \<notin> set JUDGE0_ARTIFACTS
      \<and> flatName (entryName e) \<notin> set names) entries)"
  by (induction names files entries rule: extractEntries.induct) auto

lemma lastSegment_path:
  assumes "CHR ''/'' \<notin> set n"
  shows "lastSegment (dir @ ''/'' @ n) = n"
proof -
  have "takeWhile (\<lambda>c. c \<noteq> CHR ''/'') (rev n @ CHR ''/'' # rev dir) = rev n"
    using assms by (subst takeWhile_append2) auto
  then show ?thesis by (simp add: lastSegment_def)
qed

lemma flatName_path:
  "n \<noteq> [] \<Longrightarrow> CHR ''/'' \<notin> set n \<Longrightarrow> flatName (dir @ ''/'' @ n) = n"
  using lastSegment_path [of n dir] by (simp add: flatName_def)

lemma flatName_plain: "CHR ''/'' \<notin> set n \<Longrightarrow> flatName n = n"
proof -
  assume a: "CHR ''/'' \<notin> set n"
  have t: "takeWhile (\<lambda>c. c \<noteq> CHR ''/'') (rev n) = rev n"
    using a by (subst takeWhile_eq_all_conv) auto
  show ?thesis unfolding flatName_def lastSegment_def t by simp
qed

lemma storeOutputs_session:
  "st sessionId = Some s \<Longrightarrow> session_lastAccessedAt s = now \<Longrightarrow>
     \<exists>s'. fst (storeOutputs ttl st now gen k sessionId files) sessionId = Some s'
          \<and> session_lastAccessedAt s' = now"
proof (induction files arbitrary: st k s)
  case Nil
  then show ?case by simp
next
  case (Cons f fs)
  from addFile_touched [of ttl st now "gen k" sessionId "fst f" "snd f"]
  obtain s1 where a: "fst (addFile ttl st now (gen k) sessionId (fst f) (snd f)) sessionId = Some s1"
    and b: "session_lastAccessedAt s1 = now"
    by blast
  from Cons.IH [of "fst (addFile ttl st now (gen k) sessionId (fst f) (snd f))" s1 "Suc k", OF a b]
  show ?case
    by (simp add: split_def Let_def)
qed

lemma translateResponse_stdout:
  "exec_stdout (snd (translateResponse R ttl st now gen j0 names flag)) =
     (if flag then NOTICE else []) @
     (if truthy (j0_stdout j0) then decodeBase64 R (the (j0_stdout j0)) else [])"
  by (auto simp: translateResponse_def createSession_def Let_def split_def truthy_def decoded_def
           split: option.splits)

lemma translateResponse_stderr:
  "exec_stderr (snd (translateResponse R ttl st now gen j0 names flag)) = classify R j0"
  by (simp add: translateResponse_def createSession_def Let_def split_def)

lemma translateResponse_session_id:
  "exec_session_id (snd (translateResponse R ttl st now gen j0 names flag)) = gen 0"
  by (simp add: translateResponse_def createSession_def Let_def split_def)

lemma translateResponse_session:
  "\<exists>s. fst (translateResponse R ttl st now gen j0 names flag) (gen 0) = Some s
       \<and> session_lastAccessedAt s = now"
proof -
  let ?st1 = "fst (createSession st now (gen 0))"
  have c: "?st1 (gen 0) = Some \<lparr>session_id = gen 0, session_files = [],
             session_createdAt = now, session_lastAccessedAt = now\<rparr>"
    by (simp add: createSession_def)
  have "fst (translateResponse R ttl st now gen j0 names flag) = ?st1
        \<or> (\<exists>fs. fst (translateResponse R ttl st now gen j0 names flag) =
              fst (storeOutputs ttl ?st1 now gen 1 (gen 0) fs))"
    by (auto simp: translateResponse_def createSession_def Let_def split_def split: option.splits)
  then show ?thesis
  proof
    assume "fst (translateResponse R ttl st now gen j0 names flag) = ?st1"
    with c show ?thesis by simp
  next
    assume "\<exists>fs. fst (translateResponse R ttl st now gen j0 names flag) =
              fst (storeOutputs ttl ?st1 now gen 1 (gen 0) fs)"
    then obtain fs where "fst (translateResponse R ttl st now gen j0 names flag) =
              fst (storeOutputs ttl ?st1 now gen 1 (gen 0) fs)" ..
    with storeOutputs_session [of ?st1 "gen 0" _ now ttl gen 1 fs, OF c] show ?thesis by simp
  qed
qed

lemma handleError_result:
  "handleError st now gen error =
     (st(gen 0 \<mapsto> \<lparr>session_id = gen 0, session_files = [],
                     session_createdAt = now, session_lastAccessedAt = now\<rparr>),
      \<lparr>exec_stdout = [], exec_stderr = errorText error,
       exec_session_id = gen 0, exec_files = None\<rparr>)"
  by (simp add: handleError_def createSession_def)

lemma errorText_nonempty: "errorText error \<noteq> []"
  by (cases error) (auto simp: errorText_def split: option.splits)

lemma prepare_flag:
  "snd (snd (snd (prepare R ttl st t0 lang code files args))) = pathPattern_test None code"
  by (simp add: prepare_def Let_def split_def)

lemma execute_cases:
  "execute R backend ttl st t0 t1 gen lang code files args =
     (case backend (submission R ttl st t0 lang code files args) of
        Responded j0 \<Rightarrow>
          translateResponse R ttl (fst (prepare R ttl st t0 lang code files args)) t1 gen j0
            (fst (snd (snd (prepare R ttl st t0 lang code files args))))
            (translatePaths code \<noteq> code)
      | Failed error \<Rightarrow>
          handleError (fst (prepare R ttl st t0 lang code files args)) t1 gen error)"
  using prepare_flag [of R ttl st t0 lang code files args] test_iff_changed [of code]
  by (simp add: execute_def submission_def split_def Let_def split: Outcome.splits)

lemma execute_stdout:
  "exec_stdout (snd (execute R backend ttl st t0 t1 gen lang code files args)) =
     (case backend (submission R ttl st t0 lang code files args) of
        Responded j0 \<Rightarrow>
          (if translatePaths code \<noteq> code then NOTICE else []) @
          (if truthy (j0_stdout j0) then decodeBase64 R (the (j0_stdout j0)) else [])
      | Failed error \<Rightarrow> [])"
  unfolding execute_cases
  by (simp add: translateResponse_stdout handleError_result split: Outcome.splits)

lemma execute_session:
  "exec_session_id (snd (execute R backend ttl st t0 t1 gen lang code files args)) = gen 0
   \<and> (\<exists>s. fst (execute R backend ttl st t0 t1 gen lang code files args) (gen 0) = Some s
          \<and> session_lastAccessedAt s = t1)"
  unfolding execute_cases
  using translateResponse_session
  by (auto simp: translateResponse_session_id handleError_result split: Outcome.splits)

lemma execute_failed:
  "backend (submission R ttl st t0 lang code files args) = Failed error \<Longrightarrow>
     snd (execute R backend ttl st t0 t1 gen lang code files args) =
       \<lparr>exec_stdout = [], exec_stderr = errorText error,
        exec_session_id = gen 0, exec_files = None\<rparr>"
  unfolding execute_cases by (simp add: handleError_result)

text \<open>
  C7. Of an unpacked output archive, \<open>extractZip\<close> skips the directory entries and the
  entries whose own name (before flattening) starts with \<open>.\<close>. Of the others it drops
  exactly those whose flattened name is, by comparison of the texts as they stand, one
  of the fourteen names of \<open>JUDGE0_ARTIFACTS\<close> or one of the input file names, and keeps
  every other one, in the archive's order, under its flattened name and with its data.
  The flattened name is the text after the last \<open>/\<close>: a name without \<open>/\<close> is its own
  flattened name, \<open>dir/n\<close> has the flattened name \<open>n\<close> when \<open>n\<close> is not empty and holds no
  \<open>/\<close>, and a name that ends with \<open>/\<close> is kept whole.
\<close>

theorem extractZip_keeps_exactly:
  assumes "readZip R (fromBase64 base64Zip) = Some entries"
  shows "extractZip R base64Zip inputFileNames =
           Some (map (\<lambda>e. (flatName (entryName e), getData e))
                  (filter (\<lambda>e. \<not> isDirectory e \<and> \<not> prefix ''.'' (entryName e)
                               \<and> flatName (entryName e) \<notin>
                                   set [''script.py'', ''script.js'', ''script.ts'', ''main.c'',
                                        ''main.cpp'', ''Main.java'', ''script.php'', ''main.rs'',
                                        ''main.go'', ''main.d'', ''main.f90'', ''script.r'',
                                        ''run.sh'', ''compile.sh'']
                               \<and> flatName (entryName e) \<notin> set inputFileNames) entries))
         \<and> (CHR ''/'' \<notin> set n \<longrightarrow> flatName n = n)
         \<and> (n \<noteq> [] \<and> CHR ''/'' \<notin> set n \<longrightarrow> flatName (dir @ ''/'' @ n) = n)
         \<and> flatName (dir @ ''/'') = dir @ ''/''"
proof -
  have d: "startsWithDot s = prefix ''.'' s" for s
    by (cases s) (auto simp: startsWithDot_def)
  have "extractZip R base64Zip inputFileNames =
           Some (map (\<lambda>e. (flatName (entryName e), getData e))
                  (filter (\<lambda>e. \<not> isDirectory e \<and> \<not> prefix ''.'' (entryName e)
                               \<and> flatName (entryName e) \<notin>
                                   set [''script.py'', ''script.js'', ''script.ts'', ''main.c'',
                                        ''main.cpp'', ''Main.java'', ''script.php'', ''main.rs'',
                                        ''main.go'', ''main.d'', ''main.f90'', ''script.r'',
                                        ''run.sh'', ''compile.sh'']
                               \<and> flatName (entryName e) \<notin> set inputFileNames) entries))"
    using assms by (simp add: extractZip_def extractEntries_filter d JUDGE0_ARTIFACTS_def)
  moreover have "CHR ''/'' \<notin> set n \<longrightarrow> flatName n = n"
    by (simp add: flatName_plain)
  moreover have "n \<noteq> [] \<and> CHR ''/'' \<notin> set n \<longrightarrow> flatName (dir @ ''/'' @ n) = n"
    using flatName_path [of n dir] by blast
  moreover have "flatName (dir @ ''/'') = dir @ ''/''"
    by (simp add: flatName_def lastSegment_def)
  ultimately show ?thesis by blast
qed

text \<open>
  The archive \<open>script.py\<close>, \<open>run.sh\<close>, \<open>input.csv\<close>, \<open>result.csv\<close> with the input name
  \<open>input.csv\<close> yields exactly \<open>result.csv\<close>. In the second archive \<open>Script.py\<close> and
  \<open>data/Input.csv\<close> are kept, since the comparison tells upper from lower case;
  \<open>out/run.sh\<close> and \<open>data/input.csv\<close> are dropped by their flattened names;
  \<open>out/plot.png\<close> and \<open>a/b/c.txt\<close> are kept as \<open>plot.png\<close> and \<open>c.txt\<close>; the directory
  \<open>out/\<close> and the entries \<open>.cache\<close> and \<open>.git/config\<close> are skipped; and \<open>out/.hidden\<close>,
  whose own name does not start with \<open>.\<close>, is kept as \<open>.hidden\<close>.
\<close>

theorem extractZip_keeps_exactly_witness:
  "extractZip (ascii_runtime\<lparr>readZip := (\<lambda>b. Some example_archive)\<rparr>) ''UEsDBA=='' [''input.csv'']
     = Some [(''result.csv'', [4])]
   \<and> extractZip (ascii_runtime\<lparr>readZip := (\<lambda>b. Some example_nested_archive)\<rparr>) ''UEsDBA==''
        [''input.csv'']
     = Some [(''Script.py'', [1]), (''plot.png'', [3]), (''Input.csv'', [6]), (''.hidden'', [7]),
             (''c.txt'', [9])]
   \<and> CHR ''/'' \<notin> set ''result.csv'' \<and> flatName ''result.csv'' = ''result.csv''
   \<and> ''c.txt'' \<noteq> [] \<and> CHR ''/'' \<notin> set ''c.txt'' \<and> flatName ''a/b/c.txt'' = ''c.txt''
   \<and> flatName ''out/'' = ''out/''"
proof -
  have r1: "readZip (ascii_runtime\<lparr>readZip := (\<lambda>b. Some example_archive)\<rparr>) (fromBase64 ''UEsDBA=='')
           = Some example_archive"
    by simp
  have r2: "readZip (ascii_runtime\<lparr>readZip := (\<lambda>b. Some example_nested_archive)\<rparr>)
              (fromBase64 ''UEsDBA=='') = Some example_nested_archive"
    by simp
  have f: "flatName ''script.py'' = ''script.py''" "flatName ''run.sh'' = ''run.sh''"
    "flatName ''input.csv'' = ''input.csv''" "flatName ''result.csv'' = ''result.csv''"
    "flatName ''Script.py'' = ''Script.py''" "flatName ''out/run.sh'' = ''run.sh''"
    "flatName ''out/plot.png'' = ''plot.png''" "flatName ''.cache'' = ''.cache''"
    "flatName ''out/'' = ''out/''" "flatName ''data/input.csv'' = ''input.csv''"
    "flatName ''data/Input.csv'' = ''Input.csv''" "flatName ''out/.hidden'' = ''.hidden''"
    "flatName ''.git/config'' = ''config''" "flatName ''a/b/c.txt'' = ''c.txt''"
    by (simp_all add: flatName_def lastSegment_def)
  note a = extractZip_keeps_exactly [OF r1, of "[''input.csv'']" "''result.csv''" "''out''"]
  note b = extractZip_keeps_exactly [OF r2, of "[''input.csv'']" "''c.txt''" "''a/b''"]
  from a b show ?thesis
    by (simp add: example_archive_def example_nested_archive_def f)
qed

text \<open>
  C8. When the backend reports status 6 (compilation error), \<open>stderr\<close> of the response
  is the decoded \<open>compile_output\<close> when that field is present and not empty, and the
  text \<open>Compilation error\<close> otherwise; \<open>stdout\<close> is the usual decoding of the backend's
  \<open>stdout\<close> (after the notice, if any) and does not depend on the status or on
  \<open>compile_output\<close>.
\<close>

theorem compilation_error_stderr:
  assumes "map_option status_id (status j0) = Some 6"
  shows "exec_stderr (snd (translateResponse R ttl st now gen j0 names flag)) =
           (if truthy (compile_output j0) then decodeBase64 R (the (compile_output j0))
            else ''Compilation error'')
         \<and> exec_stdout (snd (translateResponse R ttl st now gen j0 names flag)) =
           (if flag then NOTICE else []) @
           (if truthy (j0_stdout j0) then decodeBase64 R (the (j0_stdout j0)) else [])
         \<and> exec_stdout (snd (translateResponse R ttl st now gen j0 names flag)) =
           exec_stdout (snd (translateResponse R ttl st now gen
              (j0\<lparr>status := other_status, compile_output := other_output\<rparr>) names flag))"
  using assms
  by (auto simp: translateResponse_stderr translateResponse_stdout classify_def truthy_def
        decoded_def split: option.splits)

theorem compilation_error_stderr_witness:
  "exec_stderr (snd (translateResponse ascii_runtime 86400000 Map.empty 0 example_ids
       example_compile_error [] False)) = ''main.c:1: error''
   \<and> exec_stdout (snd (translateResponse ascii_runtime 86400000 Map.empty 0 example_ids
       example_compile_error [] False)) = []
   \<and> exec_stderr (snd (translateResponse ascii_runtime 86400000 Map.empty 0 example_ids
       (example_compile_error\<lparr>compile_output := Some []\<rparr>) [] False)) = ''Compilation error''
   \<and> exec_stderr (snd (translateResponse ascii_runtime 86400000 Map.empty 0 example_ids
       (example_compile_error\<lparr>compile_output := None\<rparr>) [] False)) = ''Compilation error''"
proof -
  have s1: "map_option status_id (status example_compile_error) = Some 6"
    and s2: "map_option status_id (status (example_compile_error\<lparr>compile_output := Some []\<rparr>)) = Some 6"
    and s3: "map_option status_id (status (example_compile_error\<lparr>compile_output := None\<rparr>)) = Some 6"
    by (simp_all add: example_compile_error_def)
  have d: "decodeBase64 ascii_runtime ''bWFpbi5jOjE6IGVycm9y'' = ''main.c:1: error''"
    by (simp add: decodeBase64_def ascii_runtime_def fromBase64_def unbase64_def char_of_eq_iff)
  from compilation_error_stderr [OF s1] compilation_error_stderr [OF s2]
    compilation_error_stderr [OF s3] d
  show ?thesis
    by (simp add: example_compile_error_def truthy_def)
qed

text \<open>
  C9 (as amended). When the backend answers, \<open>stdout\<close> of the response is the notice
  followed by the decoded backend \<open>stdout\<close> if the rewrite changed the submitted source,
  and exactly the decoded backend \<open>stdout\<close> (empty when the backend sent none) if it
  did not. When the HTTP call fails, \<open>stdout\<close> is empty whether or not the source was
  rewritten.
\<close>

theorem execute_stdout_notice:
  "exec_stdout (snd (execute R backend ttl st t0 t1 gen lang code files args)) =
     (case backend (submission R ttl st t0 lang code files args) of
        Responded j0 \<Rightarrow>
          (if translatePaths code \<noteq> code
           then NOTICE @ (if truthy (j0_stdout j0) then decodeBase64 R (the (j0_stdout j0)) else [])
           else (if truthy (j0_stdout j0) then decodeBase64 R (the (j0_stdout j0)) else []))
      | Failed error \<Rightarrow> [])"
  by (simp add: execute_stdout split: Outcome.splits)

lemma decode_notice:
  "decodeBase64 ascii_runtime ''RllJOiBqdWRnZTAtYnJpZGdlIHJlcGxhY2VzIC9tbnQvZGF0YSB0byAuLwoK'' = NOTICE"
  by (simp add: decodeBase64_def ascii_runtime_def fromBase64_def unbase64_def char_of_eq_iff NOTICE_def)

theorem execute_stdout_notice_witness:
  "exec_stdout (snd (execute ascii_runtime example_echo 86400000 Map.empty 0 1
       example_ids lang_py ''print(open('/mnt/data/in.txt').read())'' [] []))
     = NOTICE @ NOTICE
   \<and> exec_stdout (snd (execute ascii_runtime example_echo 86400000 Map.empty 0 1
       example_ids lang_py ''print(1)'' [] []))
     = NOTICE"
proof -
  have c1: "translatePaths ''print(open('/mnt/data/in.txt').read())'' \<noteq>
              ''print(open('/mnt/data/in.txt').read())''"
    by (simp add: path_simps)
  have c2: "translatePaths ''print(1)'' = ''print(1)''"
    by (simp add: path_simps)
  show ?thesis
    unfolding execute_stdout_notice
    using c1 c2 decode_notice by (simp add: example_echo_def truthy_def)
qed

text \<open>
  The claim as first stated fails in both directions: a rewritten source whose
  submission meets a refused connection gets an empty \<open>stdout\<close>, and a source without
  the mount path whose program prints the notice's text gets a \<open>stdout\<close> that begins
  with it.
\<close>

theorem stdout_notice_not_iff_rewrite:
  "translatePaths ''print(open('/mnt/data/in.txt').read())'' \<noteq>
      ''print(open('/mnt/data/in.txt').read())''
   \<and> \<not> prefix NOTICE (exec_stdout (snd (execute ascii_runtime example_refused 86400000
          Map.empty 0 1 example_ids lang_py
          ''print(open('/mnt/data/in.txt').read())'' [] [])))
   \<and> translatePaths ''print(1)'' = ''print(1)''
   \<and> prefix NOTICE (exec_stdout (snd (execute ascii_runtime example_echo 86400000
          Map.empty 0 1 example_ids lang_py ''print(1)'' [] [])))"
proof -
  have c1: "translatePaths ''print(open('/mnt/data/in.txt').read())'' \<noteq>
              ''print(open('/mnt/data/in.txt').read())''"
    by (simp add: path_simps)
  have c2: "translatePaths ''print(1)'' = ''print(1)''"
    by (simp add: path_simps)
  have n: "\<not> prefix NOTICE []"
    by (simp add: NOTICE_def)
  show ?thesis
    unfolding execute_stdout
    using c1 c2 n decode_notice by (simp add: example_echo_def example_refused_def truthy_def)
qed

section \<open>Facts about the Redis store\<close>

lemma key_kinds [simp]:
  "sessionKey s \<noteq> fileDataKey s' f" "fileDataKey s' f \<noteq> sessionKey s"
  "filesKey s \<noteq> fileDataKey s' f" "fileDataKey s' f \<noteq> filesKey s"
  "sessionKey s \<noteq> filesKey s" "filesKey s \<noteq> sessionKey s"
  "take 5 (sessionKey s) \<noteq> ''file:''" "take 5 (filesKey s) \<noteq> ''file:''"
  "take 5 (fileDataKey s f) = ''file:''"
  by (simp_all add: sessionKey_def filesKey_def fileDataKey_def)

lemma live_update:
  "live (db(k \<mapsto> (v, e))) now k' =
     (if k' = k then (case e of None \<Rightarrow> Some v | Some t \<Rightarrow> if t < now then None else Some v)
      else live db now k')"
  by (simp add: live_def)

lemma live_delete: "live (db(k := None)) now k' = (if k' = k then None else live db now k')"
  by (simp add: live_def)

lemma HSET_absent:
  "live db now k = None \<Longrightarrow> HSET db now k fvs = Inr (db(k \<mapsto> (Hash (setFields fvs []), None)))"
  by (simp add: HSET_def)

lemma HSET_hash:
  "live db now k = Some (Hash h) \<Longrightarrow>
     HSET db now k fvs = Inr (db(k \<mapsto> (Hash (setFields fvs h), expiry db k)))"
  by (simp add: HSET_def)

lemma EXPIRE_live:
  "live db now k = Some v \<Longrightarrow> 0 < seconds \<Longrightarrow>
     EXPIRE db now k seconds = db(k \<mapsto> (v, Some (now + seconds * 1000)))"
  by (simp add: EXPIRE_def)

lemma typed_live:
  "typed db \<Longrightarrow> live db now k = Some v \<Longrightarrow>
     (case v of Str s \<Rightarrow> take 5 k = ''file:'' | Hash h \<Rightarrow> take 5 k \<noteq> ''file:'')"
  by (auto simp: typed_def live_def split: option.splits prod.splits if_splits)

lemma typed_hash_key:
  assumes "typed db" and "take 5 k \<noteq> ''file:''"
  shows "live db now k = None \<or> (\<exists>h. live db now k = Some (Hash h))"
proof (cases "live db now k")
  case None
  then show ?thesis by simp
next
  case (Some v)
  with typed_live [OF assms(1) Some] assms(2) show ?thesis
    by (cases v) auto
qed

lemma expiry_live:
  "live db now k = Some v \<Longrightarrow> (case expiry db k of None \<Rightarrow> True | Some t \<Rightarrow> now \<le> t)"
  by (auto simp: live_def expiry_def split: option.splits prod.splits if_splits)

lemma map_get_setFields_one: "map_get (setFields [(f, x)] h) f = Some x"
  by (simp add: map_get_map_set)

lemma redis_addFile_keys:
  assumes ty: "typed db" and t1: "1000 \<le> ttl"
  shows "\<exists>db' fields h.
           redis_addFile C ttl db now fileId X name data = Inr (db', fileId)
           \<and> db' (sessionKey X) = Some (Hash fields, Some (now + ttlSeconds ttl * 1000))
           \<and> (\<not> redis_isSessionValid db now X \<longrightarrow>
                 fields = [(''id'', X), (''createdAt'', toISOString C now),
                           (''lastAccessedAt'', toISOString C now)])
           \<and> db' (filesKey X) = Some (Hash h, Some (now + ttlSeconds ttl * 1000))
           \<and> map_get h fileId =
                 Some (JSON_stringify C \<lparr>meta_name = name, meta_size = length data,
                                           meta_createdAt = toISOString C now\<rparr>)
           \<and> db' (fileDataKey X fileId) =
                 Some (Str (toBase64 data), Some (now + ttlSeconds ttl * 1000))"
proof -
  let ?fields = "[(''id'', X), (''createdAt'', toISOString C now),
                  (''lastAccessedAt'', toISOString C now)]"
  let ?json = "JSON_stringify C \<lparr>meta_name = name, meta_size = length data,
                                   meta_createdAt = toISOString C now\<rparr>"
  let ?t = "now + ttlSeconds ttl * 1000"
  from t1 have sec: "0 < ttlSeconds ttl" by (simp add: ttlSeconds_def)
  define db1 where "db1 = (if EXISTS db now (sessionKey X) then db
     else db(sessionKey X \<mapsto> (Hash (setFields ?fields []), None)))"
  have s1: "(if EXISTS db now (sessionKey X) then Inr db
            else HSET db now (sessionKey X) ?fields) = Inr db1"
    by (simp add: db1_def EXISTS_def HSET_absent)
  have "\<exists>f1. live db1 now (sessionKey X) = Some (Hash f1)
          \<and> (\<not> EXISTS db now (sessionKey X) \<longrightarrow> f1 = ?fields)"
    using typed_hash_key [OF ty, of "sessionKey X" now]
    by (auto simp: db1_def EXISTS_def live_update)
  then obtain f1 where f1: "live db1 now (sessionKey X) = Some (Hash f1)"
    and f1n: "\<not> EXISTS db now (sessionKey X) \<longrightarrow> f1 = ?fields"
    by blast
  have l1: "live db1 now (filesKey X) = live db now (filesKey X)"
    by (simp add: db1_def live_update)
  have x1: "expiry db1 (filesKey X) = expiry db (filesKey X)"
    by (simp add: db1_def expiry_def)
  define h0 where "h0 = (case live db now (filesKey X) of Some (Hash h) \<Rightarrow> h | _ \<Rightarrow> [])"
  define e0 where "e0 = (case live db now (filesKey X) of None \<Rightarrow> None | Some v \<Rightarrow> expiry db (filesKey X))"
  define db2 where "db2 = db1(filesKey X \<mapsto> (Hash (setFields [(fileId, ?json)] h0), e0))"
  have s2: "HSET db1 now (filesKey X) [(fileId, ?json)] = Inr db2"
    using typed_hash_key [OF ty, of "filesKey X" now]
  proof
    assume n: "live db now (filesKey X) = None"
    with l1 have "live db1 now (filesKey X) = None" by simp
    from HSET_absent [OF this] n show ?thesis
      by (simp add: db2_def h0_def e0_def)
  next
    assume "\<exists>h. live db now (filesKey X) = Some (Hash h)"
    then obtain h where h: "live db now (filesKey X) = Some (Hash h)" ..
    with l1 have "live db1 now (filesKey X) = Some (Hash h)" by simp
    from HSET_hash [OF this] h x1 show ?thesis
      by (simp add: db2_def h0_def e0_def)
  qed (simp)
  have e0: "case e0 of None \<Rightarrow> True | Some t \<Rightarrow> now \<le> t"
    using expiry_live [of db now "filesKey X"]
    by (auto simp: e0_def split: option.splits)
  define db3 where "db3 = SET db2 (fileDataKey X fileId) (toBase64 data)"
  define db4 where "db4 = EXPIRE db3 now (fileDataKey X fileId) (ttlSeconds ttl)"
  define db5 where "db5 = EXPIRE db4 now (sessionKey X) (ttlSeconds ttl)"
  define db6 where "db6 = EXPIRE db5 now (filesKey X) (ttlSeconds ttl)"
  have r: "redis_addFile C ttl db now fileId X name data = Inr (db6, fileId)"
    unfolding redis_addFile_def s1 using s2
    by (simp add: refreshTTL_def db3_def db4_def db5_def db6_def)
  have d4: "db4 = db2(fileDataKey X fileId \<mapsto> (Str (toBase64 data), Some ?t))"
    using sec by (simp add: db4_def db3_def SET_def EXPIRE_def live_update)
  have l4: "live db4 now (sessionKey X) = Some (Hash f1)"
    using f1 by (simp add: d4 db2_def live_update)
  have d5: "db5 = db4(sessionKey X \<mapsto> (Hash f1, Some ?t))"
    unfolding db5_def by (rule EXPIRE_live [OF l4 sec])
  have lf: "live db5 now (filesKey X) = Some (Hash (setFields [(fileId, ?json)] h0))"
    using e0 by (auto simp: d5 d4 db2_def live_update split: option.splits)
  have d6: "db6 = db5(filesKey X \<mapsto> (Hash (setFields [(fileId, ?json)] h0), Some ?t))"
    unfolding db6_def by (rule EXPIRE_live [OF lf sec])
  have k1: "db6 (sessionKey X) = Some (Hash f1, Some ?t)"
    by (simp add: d6 d5)
  have k2: "db6 (filesKey X) = Some (Hash (setFields [(fileId, ?json)] h0), Some ?t)"
    by (simp add: d6)
  have k3: "db6 (fileDataKey X fileId) = Some (Str (toBase64 data), Some ?t)"
    by (simp add: d6 d5 d4)
  have k4: "map_get (setFields [(fileId, ?json)] h0) fileId = Some ?json"
    by (simp add: map_get_map_set)
  from r k1 k2 k3 k4 f1n show ?thesis
    unfolding redis_isSessionValid_def by blast
qed

lemma live_entry:
  "db k = Some (v, Some t) \<Longrightarrow> live db now k = (if t < now then None else Some v)"
  by (simp add: live_def)

lemma redis_adoption:
  assumes nx: "\<not> redis_isSessionValid db now X"
    and ty: "typed db"
    and t1: "1000 \<le> ttl"
    and lt: "later - now < ttlSeconds ttl * 1000"
  shows "\<exists>db'. redis_addFile C ttl db now fileId X name data = Inr (db', fileId)
           \<and> redis_isSessionValid db' later X
           \<and> HGETALL db' later (sessionKey X) =
               Inr [(''id'', X), (''createdAt'', toISOString C now),
                    (''lastAccessedAt'', toISOString C now)]
           \<and> HGET db' later (filesKey X) fileId =
               Inr (Some (JSON_stringify C \<lparr>meta_name = name, meta_size = length data,
                                             meta_createdAt = toISOString C now\<rparr>))
           \<and> GET db' later (fileDataKey X fileId) = Inr (Some (toBase64 data))"
proof -
  from lt have alive: "\<not> now + ttlSeconds ttl * 1000 < later" by simp
  from redis_addFile_keys [OF ty t1, of C now fileId X name data] nx
  obtain db' h where r: "redis_addFile C ttl db now fileId X name data = Inr (db', fileId)"
    and k1: "db' (sessionKey X) =
              Some (Hash [(''id'', X), (''createdAt'', toISOString C now),
                          (''lastAccessedAt'', toISOString C now)],
                    Some (now + ttlSeconds ttl * 1000))"
    and k2: "db' (filesKey X) = Some (Hash h, Some (now + ttlSeconds ttl * 1000))"
    and k4: "map_get h fileId =
                 Some (JSON_stringify C \<lparr>meta_name = name, meta_size = length data,
                                           meta_createdAt = toISOString C now\<rparr>)"
    and k3: "db' (fileDataKey X fileId) =
                 Some (Str (toBase64 data), Some (now + ttlSeconds ttl * 1000))"
    by blast
  have "redis_isSessionValid db' later X"
    using alive k1 by (simp add: redis_isSessionValid_def EXISTS_def live_def)
  moreover have "HGETALL db' later (sessionKey X) =
               Inr [(''id'', X), (''createdAt'', toISOString C now),
                    (''lastAccessedAt'', toISOString C now)]"
    using alive k1 by (simp add: HGETALL_def live_def)
  moreover have "HGET db' later (filesKey X) fileId =
               Inr (Some (JSON_stringify C \<lparr>meta_name = name, meta_size = length data,
                                             meta_createdAt = toISOString C now\<rparr>))"
    using alive k4 k2 by (simp add: HGET_def live_def)
  moreover have "GET db' later (fileDataKey X fileId) = Inr (Some (toBase64 data))"
    using alive k3 by (simp add: GET_def live_def)
  ultimately show ?thesis using r by blast
qed

lemma redis_absent_reads:
  assumes "\<not> redis_isSessionValid db now sessionId"
  shows "redis_getFile C ttl db now sessionId fileId = Inr (db, None)"
    and "redis_listFiles C ttl db now sessionId = Inr (db, [])"
  using assms by (simp_all add: redis_getFile_def redis_listFiles_def redis_isSessionValid_def)

lemma refreshTTL_frame:
  "k \<noteq> sessionKey sessionId \<Longrightarrow> k \<noteq> filesKey sessionId \<Longrightarrow>
     refreshTTL ttl db now sessionId k = db k"
  by (simp add: refreshTTL_def EXPIRE_def split: option.splits)

lemma refreshTTL_keys:
  assumes "db (sessionKey sid) = Some (Hash f, Some t)" and "now \<le> t"
    and "db (filesKey sid) = Some (Hash h, Some t')" and "now \<le> t'"
    and "0 < ttlSeconds ttl"
  shows "refreshTTL ttl db now sid (sessionKey sid) =
           Some (Hash f, Some (now + ttlSeconds ttl * 1000))
         \<and> refreshTTL ttl db now sid (filesKey sid) =
           Some (Hash h, Some (now + ttlSeconds ttl * 1000))"
  using assms by (simp add: refreshTTL_def EXPIRE_def live_def)

subsection \<open>The kinds of the keys are kept\<close>

lemma typed_empty: "typed Map.empty"
  by (simp add: typed_def)

lemma typed_hash: "typed db \<Longrightarrow> take 5 k \<noteq> ''file:'' \<Longrightarrow> typed (db(k \<mapsto> (Hash h, e)))"
  by (simp add: typed_def)

lemma typed_str: "typed db \<Longrightarrow> take 5 k = ''file:'' \<Longrightarrow> typed (db(k \<mapsto> (Str s, e)))"
  by (simp add: typed_def)

lemma typed_EXPIRE: "typed db \<Longrightarrow> typed (EXPIRE db now k seconds)"
  by (auto simp: typed_def EXPIRE_def live_def split: option.splits prod.splits if_splits)

lemma typed_HSET:
  "typed db \<Longrightarrow> take 5 k \<noteq> ''file:'' \<Longrightarrow> HSET db now k fvs = Inr db' \<Longrightarrow> typed db'"
  by (auto simp: HSET_def typed_hash split: option.splits RedisValue.splits)

lemma typed_refreshTTL: "typed db \<Longrightarrow> typed (refreshTTL ttl db now sid)"
  by (simp add: refreshTTL_def typed_EXPIRE)

lemma typed_addFile:
  assumes "typed db" and "redis_addFile C ttl db now fileId sid name data = Inr (db', r)"
  shows "typed db'"
proof -
  from assms(2) obtain db1 db2 where
    a: "(if EXISTS db now (sessionKey sid) then Inr db
         else HSET db now (sessionKey sid)
                [(''id'', sid), (''createdAt'', toISOString C now),
                 (''lastAccessedAt'', toISOString C now)]) = Inr db1"
    and b: "HSET db1 now (filesKey sid)
              [(fileId, JSON_stringify C \<lparr>meta_name = name, meta_size = length data,
                                           meta_createdAt = toISOString C now\<rparr>)] = Inr db2"
    and c: "db' = refreshTTL ttl (EXPIRE (SET db2 (fileDataKey sid fileId) (toBase64 data)) now
                     (fileDataKey sid fileId) (ttlSeconds ttl)) now sid"
    by (auto simp: redis_addFile_def Let_def split: sum.splits)
  from a assms(1) have "typed db1"
    by (auto split: if_splits intro: typed_HSET [of db "sessionKey sid"])
  with b have "typed db2"
    by (auto intro: typed_HSET [of db1 "filesKey sid"])
  then have "typed (SET db2 (fileDataKey sid fileId) (toBase64 data))"
    by (simp add: SET_def typed_str)
  with c show ?thesis
    by (simp add: typed_refreshTTL typed_EXPIRE)
qed

lemma typed_reads:
  assumes "typed db"
  shows "redis_getFile C ttl db now sid fileId = Inr (db', r) \<Longrightarrow> typed db'"
    and "redis_listFiles C ttl db now sid = Inr (db'', rs) \<Longrightarrow> typed db''"
  using assms
  by (auto simp: redis_getFile_def redis_listFiles_def typed_refreshTTL
           split: if_splits sum.splits option.splits)

lemma typed_createSession:
  assumes "typed db" and "redis_createSession C ttl db now new_id = Inr (db', r)"
  shows "typed db'"
proof -
  from assms(2) obtain db1 where
    a: "HSET db now (sessionKey new_id)
          [(''id'', new_id), (''createdAt'', toISOString C now),
           (''lastAccessedAt'', toISOString C now)] = Inr db1"
    and b: "db' = EXPIRE db1 now (sessionKey new_id) (ttlSeconds ttl)"
    by (auto simp: redis_createSession_def split: sum.splits)
  from typed_HSET [OF assms(1) _ a] have "typed db1" by simp
  with b show ?thesis by (simp add: typed_EXPIRE)
qed

text \<open>
  Within its lifetime, a file whose payload is not empty is read back from Redis with
  its bytes and its name, when \<open>JSON.parse\<close> reads the metadata that \<open>JSON.stringify\<close>
  wrote.
\<close>

lemma redis_roundtrip:
  assumes ty: "typed db" and t: "1000 \<le> ttl" and lt: "later - now < ttlSeconds ttl * 1000"
    and ne: "data \<noteq> []"
    and js: "JSON_stringify C \<lparr>meta_name = name, meta_size = length data,
                                  meta_createdAt = toISOString C now\<rparr> \<noteq> []"
    and jp: "JSON_parse C (JSON_stringify C \<lparr>meta_name = name, meta_size = length data,
                                  meta_createdAt = toISOString C now\<rparr>)
              = Some \<lparr>meta_name = name, meta_size = length data,
                      meta_createdAt = toISOString C now\<rparr>"
  shows "\<exists>db'. redis_addFile C ttl db now fileId sid name data = Inr (db', fileId)
           \<and> redis_getFile C ttl db' later sid fileId =
               Inr (refreshTTL ttl db' later sid,
                    Some \<lparr>file_id = fileId, file_name = name, file_data = data,
                          file_size = length data,
                          file_createdAt = parseDate C (toISOString C now)\<rparr>)"
proof -
  let ?json = "JSON_stringify C \<lparr>meta_name = name, meta_size = length data,
                                   meta_createdAt = toISOString C now\<rparr>"
  from lt have alive: "\<not> now + ttlSeconds ttl * 1000 < later" by simp
  from redis_addFile_keys [OF ty t, of C now fileId sid name data]
  obtain db' fields h where r: "redis_addFile C ttl db now fileId sid name data = Inr (db', fileId)"
    and k1: "db' (sessionKey sid) = Some (Hash fields, Some (now + ttlSeconds ttl * 1000))"
    and k2: "db' (filesKey sid) = Some (Hash h, Some (now + ttlSeconds ttl * 1000))"
    and k4: "map_get h fileId = Some ?json"
    and k3: "db' (fileDataKey sid fileId) =
                 Some (Str (toBase64 data), Some (now + ttlSeconds ttl * 1000))"
    by blast
  have v: "EXISTS db' later (sessionKey sid)"
    using alive k1 by (simp add: EXISTS_def live_def)
  have m: "HGET db' later (filesKey sid) fileId = Inr (Some ?json)"
    using alive k2 k4 by (simp add: HGET_def live_def)
  have g: "GET db' later (fileDataKey sid fileId) = Inr (Some (toBase64 data))"
    using alive k3 by (simp add: GET_def live_def)
  have b: "toBase64 data \<noteq> []"
    using ne by (simp add: toBase64_empty)
  have "redis_getFile C ttl db' later sid fileId =
               Inr (refreshTTL ttl db' later sid,
                    Some \<lparr>file_id = fileId, file_name = name, file_data = data,
                          file_size = length data,
                          file_createdAt = parseDate C (toISOString C now)\<rparr>)"
    using v m g b js jp by (simp add: redis_getFile_def fromBase64_toBase64)
  with r show ?thesis by blast
qed

text \<open>An instance with the codec of the examples, read five seconds after the write.\<close>

lemma example_codec_reads_back:
  "JSON_parse example_codec
     (JSON_stringify example_codec
        \<lparr>meta_name = ''a.txt'', meta_size = 3, meta_createdAt = toISOString example_codec 0\<rparr>)
   = Some \<lparr>meta_name = ''a.txt'', meta_size = 3, meta_createdAt = toISOString example_codec 0\<rparr>"
  by (simp add: example_codec_def example_stringify_def example_parse_def afterPrefix_def
        quote_def digits.simps char_of_eq_iff isDigit_def number_def)

lemma redis_roundtrip_example:
  "\<exists>db'. redis_addFile example_codec 10000 Map.empty 0 ''f1'' ''s1'' ''a.txt'' [1, 2, 3]
            = Inr (db', ''f1'')
         \<and> map_sum id snd (redis_getFile example_codec 10000 db' 5000 ''s1'' ''f1'') =
             Inr (Some \<lparr>file_id = ''f1'', file_name = ''a.txt'', file_data = [1, 2, 3],
                         file_size = 3, file_createdAt = 0\<rparr>)"
proof -
  let ?m = "\<lparr>meta_name = ''a.txt'', meta_size = length [1, 2, 3 :: byte],
             meta_createdAt = toISOString example_codec 0\<rparr>"
  have l: "length [1, 2, 3 :: byte] = 3" by simp
  have h: "(1000::int) \<le> 10000" by simp
  have t: "(5000::int) - 0 < ttlSeconds 10000 * 1000"
    by (simp add: ttlSeconds_def)
  have d: "[1, 2, 3 :: byte] \<noteq> []" by simp
  have n: "JSON_stringify example_codec ?m \<noteq> []"
    by (simp add: example_codec_def example_stringify_def)
  have j: "JSON_parse example_codec (JSON_stringify example_codec ?m) = Some ?m"
    unfolding l by (rule example_codec_reads_back)
  have p: "parseDate example_codec (toISOString example_codec 0) = 0"
    by (simp add: example_codec_def digits.simps number_def char_of_eq_iff)
  from redis_roundtrip [OF typed_empty h t d n j, of "''f1''" "''s1''"]
  obtain db' where "redis_addFile example_codec 10000 Map.empty 0 ''f1'' ''s1'' ''a.txt'' [1, 2, 3]
            = Inr (db', ''f1'')"
    and "redis_getFile example_codec 10000 db' 5000 ''s1'' ''f1'' =
               Inr (refreshTTL 10000 db' 5000 ''s1'',
                    Some \<lparr>file_id = ''f1'', file_name = ''a.txt'', file_data = [1, 2, 3],
                          file_size = length [1, 2, 3 :: byte],
                          file_createdAt = parseDate example_codec (toISOString example_codec 0)\<rparr>)"
    by blast
  then show ?thesis
    unfolding l p by auto
qed

section \<open>Claims on the two stores\<close>

text \<open>
  C4. \<open>addFile\<close> on a session id under which the store holds no valid session succeeds
  in both backends, creates the session under the given id with the file in it, and
  \<open>isSessionValid\<close> of that id holds afterwards, as long as the lifetime has not run out.
  The lifetime is at least one second, the unit in which the Redis backend counts it,
  and the Redis keys hold values of the kinds the code writes.
\<close>

theorem addFile_adopts_session:
  assumes "\<not> isSessionValid ttl st now X"
    and "\<not> redis_isSessionValid db now X"
    and "typed db"
    and "1000 \<le> ttl"
    and "later - now < ttlSeconds ttl * 1000"
  shows "addFile ttl st now fileId X name data =
           (st(X \<mapsto> \<lparr>session_id = X,
                      session_files = [(fileId, \<lparr>file_id = fileId, file_name = name,
                         file_data = data, file_size = length data, file_createdAt = now\<rparr>)],
                      session_createdAt = now, session_lastAccessedAt = now\<rparr>), fileId)
     \<and> isSessionValid ttl (fst (addFile ttl st now fileId X name data)) later X
     \<and> (\<exists>db'. redis_addFile C ttl db now fileId X name data = Inr (db', fileId)
           \<and> redis_isSessionValid db' later X
           \<and> HGETALL db' later (sessionKey X) =
               Inr [(''id'', X), (''createdAt'', toISOString C now),
                    (''lastAccessedAt'', toISOString C now)]
           \<and> HGET db' later (filesKey X) fileId =
               Inr (Some (JSON_stringify C \<lparr>meta_name = name, meta_size = length data,
                                             meta_createdAt = toISOString C now\<rparr>))
           \<and> GET db' later (fileDataKey X fileId) = Inr (Some (toBase64 data)))"
proof -
  have "ttlSeconds ttl * 1000 \<le> ttl"
    by (simp add: ttlSeconds_def)
  with assms(5) have "later - now < ttl" by simp
  then have "isSessionValid ttl (fst (addFile ttl st now fileId X name data)) later X"
    by (simp add: isSessionValid_after_addFile)
  with memory_adoption [OF assms(1)] redis_adoption [OF assms(2) assms(3) assms(4) assms(5)]
  show ?thesis by blast
qed

theorem addFile_adopts_session_witness:
  "\<not> isSessionValid 86400000 Map.empty 0 ''X1''
   \<and> \<not> redis_isSessionValid Map.empty 0 ''X1''
   \<and> typed Map.empty
   \<and> (1000::int) \<le> 86400000
   \<and> (1::int) - 0 < ttlSeconds 86400000 * 1000
   \<and> isSessionValid 86400000
        (fst (addFile 86400000 Map.empty 0 ''f1'' ''X1'' ''a.txt'' [1, 2, 3])) 1 ''X1''
   \<and> (\<exists>db'. redis_addFile example_codec 86400000 Map.empty 0 ''f1'' ''X1'' ''a.txt'' [1, 2, 3]
               = Inr (db', ''f1'')
           \<and> redis_isSessionValid db' 1 ''X1''
           \<and> GET db' 1 (fileDataKey ''X1'' ''f1'') = Inr (Some ''AQID''))"
proof -
  have h1: "\<not> isSessionValid 86400000 Map.empty 0 ''X1''"
    by (simp add: isSessionValid_def)
  have h2: "\<not> redis_isSessionValid Map.empty 0 ''X1''"
    by (simp add: redis_isSessionValid_def EXISTS_def live_def)
  have h3: "typed Map.empty" by (rule typed_empty)
  have h4: "(1000::int) \<le> 86400000" by simp
  have h5: "(1::int) - 0 < ttlSeconds 86400000 * 1000"
    by (simp add: ttlSeconds_def)
  have b: "toBase64 [1, 2, 3] = ''AQID''"
    by (simp add: b64char_def char_of_eq_iff)
  from addFile_adopts_session [OF h1 h2 h3 h4 h5, of "''f1''" "''a.txt''" "[1, 2, 3]" example_codec]
    h1 h2 h3 h5 b
  show ?thesis by auto
qed

text \<open>
  C5. A session id that is unknown to the store, or whose lifetime has run out since
  its last access, is not valid, and on a session id that is not valid \<open>getFile\<close> returns
  null and \<open>listFiles\<close> the empty list, without an error, in both backends, also while
  the expired session is still held in the map or in Redis.
\<close>

theorem absent_session_reads:
  assumes "\<not> isSessionValid ttl st now sessionId"
    and "\<not> redis_isSessionValid db now sessionId"
  shows "getFile ttl st now sessionId fileId = (st(sessionId := None), None)
     \<and> listFiles C ttl st now sessionId = (st(sessionId := None), [])
     \<and> redis_getFile C ttl db now sessionId fileId = Inr (db, None)
     \<and> redis_listFiles C ttl db now sessionId = Inr (db, [])
     \<and> (\<not> isSessionValid ttl st now sessionId \<longleftrightarrow>
          st sessionId = None
          \<or> (\<exists>s. st sessionId = Some s \<and> ttl \<le> now - session_lastAccessedAt s))
     \<and> (\<not> redis_isSessionValid db now sessionId \<longleftrightarrow>
          db (sessionKey sessionId) = None
          \<or> (\<exists>v t. db (sessionKey sessionId) = Some (v, Some t) \<and> t < now))"
proof -
  have m: "\<not> isSessionValid ttl st now sessionId \<longleftrightarrow>
          st sessionId = None
          \<or> (\<exists>s. st sessionId = Some s \<and> ttl \<le> now - session_lastAccessedAt s)"
    by (auto simp: isSessionValid_def split: option.splits)
  have r: "\<not> redis_isSessionValid db now sessionId \<longleftrightarrow>
          db (sessionKey sessionId) = None
          \<or> (\<exists>v t. db (sessionKey sessionId) = Some (v, Some t) \<and> t < now)"
    by (auto simp: redis_isSessionValid_def EXISTS_def live_def split: option.splits if_splits)
  from memory_absent_reads [OF assms(1)] redis_absent_reads [OF assms(2)] m r
  show ?thesis by blast
qed

theorem absent_session_reads_witness:
  "fst (addFile 10000 Map.empty 0 ''f1'' ''s1'' ''a.txt'' [1]) ''s1'' \<noteq> None
   \<and> \<not> isSessionValid 10000 (fst (addFile 10000 Map.empty 0 ''f1'' ''s1'' ''a.txt'' [1]))
         10001 ''s1''
   \<and> \<not> redis_isSessionValid
         (Map.empty(sessionKey ''s1'' \<mapsto> (Hash [(''id'', ''s1'')], Some 10000))) 10001 ''s1''
   \<and> snd (getFile 10000 (fst (addFile 10000 Map.empty 0 ''f1'' ''s1'' ''a.txt'' [1]))
           10001 ''s1'' ''f1'') = None
   \<and> snd (listFiles example_codec 10000
           (fst (addFile 10000 Map.empty 0 ''f1'' ''s1'' ''a.txt'' [1])) 10001 ''s1'') = []
   \<and> redis_getFile example_codec 10000
        (Map.empty(sessionKey ''s1'' \<mapsto> (Hash [(''id'', ''s1'')], Some 10000)))
        10001 ''s1'' ''f1''
      = Inr (Map.empty(sessionKey ''s1'' \<mapsto> (Hash [(''id'', ''s1'')], Some 10000)), None)
   \<and> redis_listFiles example_codec 10000
        (Map.empty(sessionKey ''s1'' \<mapsto> (Hash [(''id'', ''s1'')], Some 10000)))
        10001 ''s1''
      = Inr (Map.empty(sessionKey ''s1'' \<mapsto> (Hash [(''id'', ''s1'')], Some 10000)), [])"
proof -
  let ?st = "fst (addFile 10000 Map.empty 0 ''f1'' ''s1'' ''a.txt'' [1])"
  let ?db = "Map.empty(sessionKey ''s1'' \<mapsto> (Hash [(''id'', ''s1'')], Some 10000))"
  have p: "?st ''s1'' \<noteq> None"
    using addFile_touched [of 10000 Map.empty 0 "''f1''" "''s1''" "''a.txt''" "[1]"] by auto
  have h1: "\<not> isSessionValid 10000 ?st 10001 ''s1''"
    by (simp add: isSessionValid_after_addFile)
  have h2: "\<not> redis_isSessionValid ?db 10001 ''s1''"
    by (simp add: redis_isSessionValid_def EXISTS_def live_def)
  from absent_session_reads [OF h1 h2, of "''f1''" example_codec] p h1 h2
  show ?thesis by simp
qed

text \<open>
  C3. In the Redis backend \<open>refreshTTL\<close> renews the session key and the file-list key
  and leaves every payload key as it is: after \<open>addFile\<close> at \<open>t0\<close> and a \<open>listFiles\<close> at
  \<open>t1\<close>, the two session keys expire one lifetime after \<open>t1\<close> and the payload key one
  lifetime after \<open>t0\<close>. Between the two the session is valid and lists the file, the
  payload is gone, and \<open>getFile\<close> returns null.
\<close>

theorem payload_key_not_refreshed:
  assumes ty: "typed db" and t: "1000 \<le> ttl"
    and o1: "t0 \<le> t1" and o2: "t1 \<le> t0 + ttlSeconds ttl * 1000"
    and o3: "t0 + ttlSeconds ttl * 1000 < t2" and o4: "t2 \<le> t1 + ttlSeconds ttl * 1000"
  shows "\<exists>db1 db2 infos.
       redis_addFile C ttl db t0 fileId sid name data = Inr (db1, fileId)
     \<and> redis_listFiles C ttl db1 t1 sid = Inr (db2, infos)
     \<and> redis_isSessionValid db2 t2 sid
     \<and> HGET db2 t2 (filesKey sid) fileId =
         Inr (Some (JSON_stringify C \<lparr>meta_name = name, meta_size = length data,
                                       meta_createdAt = toISOString C t0\<rparr>))
     \<and> expiry db2 (sessionKey sid) = Some (t1 + ttlSeconds ttl * 1000)
     \<and> expiry db2 (filesKey sid) = Some (t1 + ttlSeconds ttl * 1000)
     \<and> expiry db2 (fileDataKey sid fileId) = Some (t0 + ttlSeconds ttl * 1000)
     \<and> GET db2 t2 (fileDataKey sid fileId) = Inr None
     \<and> redis_getFile C ttl db2 t2 sid fileId = Inr (db2, None)"
proof -
  let ?S = "ttlSeconds ttl * 1000"
  let ?json = "JSON_stringify C \<lparr>meta_name = name, meta_size = length data,
                                   meta_createdAt = toISOString C t0\<rparr>"
  from t have sec: "0 < ttlSeconds ttl" by (simp add: ttlSeconds_def)
  from redis_addFile_keys [OF ty t, of C t0 fileId sid name data]
  obtain db1 fields h where a: "redis_addFile C ttl db t0 fileId sid name data = Inr (db1, fileId)"
    and k1: "db1 (sessionKey sid) = Some (Hash fields, Some (t0 + ?S))"
    and k2: "db1 (filesKey sid) = Some (Hash h, Some (t0 + ?S))"
    and k4: "map_get h fileId = Some ?json"
    and k3: "db1 (fileDataKey sid fileId) = Some (Str (toBase64 data), Some (t0 + ?S))"
    by blast
  define db2 where "db2 = refreshTTL ttl db1 t1 sid"
  from k1 o2 have ex: "EXISTS db1 t1 (sessionKey sid)"
    by (simp add: EXISTS_def live_def)
  from k2 o2 have "HGETALL db1 t1 (filesKey sid) = Inr h"
    by (simp add: HGETALL_def live_def)
  with ex have l: "redis_listFiles C ttl db1 t1 sid = Inr (db2, parsedEntries C h)"
    by (simp add: redis_listFiles_def db2_def)
  from refreshTTL_keys [OF k1 o2 k2 o2 sec]
  have r1: "db2 (sessionKey sid) = Some (Hash fields, Some (t1 + ?S))"
    and r2: "db2 (filesKey sid) = Some (Hash h, Some (t1 + ?S))"
    by (simp_all add: db2_def)
  have r3: "db2 (fileDataKey sid fileId) = Some (Str (toBase64 data), Some (t0 + ?S))"
    using k3 by (simp add: db2_def refreshTTL_frame)
  have v: "redis_isSessionValid db2 t2 sid"
    using r1 o4 by (simp add: redis_isSessionValid_def EXISTS_def live_def)
  have g: "HGET db2 t2 (filesKey sid) fileId = Inr (Some ?json)"
    using r2 o4 k4 by (simp add: HGET_def live_def)
  have p: "GET db2 t2 (fileDataKey sid fileId) = Inr None"
    using r3 o3 by (simp add: GET_def live_def)
  have f: "redis_getFile C ttl db2 t2 sid fileId = Inr (db2, None)"
    using v g p by (simp add: redis_getFile_def redis_isSessionValid_def)
  have x: "expiry db2 (sessionKey sid) = Some (t1 + ?S)"
    "expiry db2 (filesKey sid) = Some (t1 + ?S)"
    "expiry db2 (fileDataKey sid fileId) = Some (t0 + ?S)"
    using r1 r2 r3 by (simp_all add: expiry_def)
  from a l v g p f x show ?thesis by blast
qed

theorem payload_key_not_refreshed_witness:
  "typed Map.empty \<and> (1000::int) \<le> 10000 \<and> (0::int) \<le> 6000
   \<and> (6000::int) \<le> 0 + ttlSeconds 10000 * 1000
   \<and> (0::int) + ttlSeconds 10000 * 1000 < 12000
   \<and> (12000::int) \<le> 6000 + ttlSeconds 10000 * 1000
   \<and> (\<exists>db1 db2 infos.
         redis_addFile example_codec 10000 Map.empty 0 ''f1'' ''s1'' ''a.txt'' [1, 2, 3]
           = Inr (db1, ''f1'')
       \<and> redis_listFiles example_codec 10000 db1 6000 ''s1'' = Inr (db2, infos)
       \<and> redis_isSessionValid db2 12000 ''s1''
       \<and> expiry db2 (fileDataKey ''s1'' ''f1'') = Some 10000
       \<and> expiry db2 (sessionKey ''s1'') = Some 16000
       \<and> redis_getFile example_codec 10000 db2 12000 ''s1'' ''f1'' = Inr (db2, None))
   \<and> snd (getFile 10000
        (fst (listFiles example_codec 10000
               (fst (addFile 10000 Map.empty 0 ''f1'' ''s1'' ''a.txt'' [1, 2, 3])) 6000 ''s1''))
        12000 ''s1'' ''f1'')
      = Some \<lparr>file_id = ''f1'', file_name = ''a.txt'', file_data = [1, 2, 3],
               file_size = 3, file_createdAt = 0\<rparr>"
proof -
  have h1: "typed Map.empty" by (rule typed_empty)
  have h2: "(1000::int) \<le> 10000" by simp
  have h3: "(0::int) \<le> 6000" by simp
  have h4: "(6000::int) \<le> 0 + ttlSeconds 10000 * 1000" by (simp add: ttlSeconds_def)
  have h5: "(0::int) + ttlSeconds 10000 * 1000 < 12000" by (simp add: ttlSeconds_def)
  have h6: "(12000::int) \<le> 6000 + ttlSeconds 10000 * 1000" by (simp add: ttlSeconds_def)
  have s: "ttlSeconds 10000 * 1000 = 10000" by (simp add: ttlSeconds_def)
  have m: "snd (getFile 10000
        (fst (listFiles example_codec 10000
               (fst (addFile 10000 Map.empty 0 ''f1'' ''s1'' ''a.txt'' [1, 2, 3])) 6000 ''s1''))
        12000 ''s1'' ''f1'')
      = Some \<lparr>file_id = ''f1'', file_name = ''a.txt'', file_data = [1, 2, 3],
               file_size = 3, file_createdAt = 0\<rparr>"
    by (simp add: addFile_def getSession_def listFiles_def getFile_def isSessionValid_def Let_def)
  from payload_key_not_refreshed [OF h1 h2 h3 h4 h5 h6, of example_codec "''f1''" "''s1''"
         "''a.txt''" "[1, 2, 3]"]
  obtain db1 db2 infos where
    "redis_addFile example_codec 10000 Map.empty 0 ''f1'' ''s1'' ''a.txt'' [1, 2, 3]
           = Inr (db1, ''f1'')"
    "redis_listFiles example_codec 10000 db1 6000 ''s1'' = Inr (db2, infos)"
    "redis_isSessionValid db2 12000 ''s1''"
    "expiry db2 (fileDataKey ''s1'' ''f1'') = Some 10000"
    "expiry db2 (sessionKey ''s1'') = Some 16000"
    "redis_getFile example_codec 10000 db2 12000 ''s1'' ''f1'' = Inr (db2, None)"
    unfolding s by auto
  then have "\<exists>db1 db2 infos.
         redis_addFile example_codec 10000 Map.empty 0 ''f1'' ''s1'' ''a.txt'' [1, 2, 3]
           = Inr (db1, ''f1'')
       \<and> redis_listFiles example_codec 10000 db1 6000 ''s1'' = Inr (db2, infos)
       \<and> redis_isSessionValid db2 12000 ''s1''
       \<and> expiry db2 (fileDataKey ''s1'' ''f1'') = Some 10000
       \<and> expiry db2 (sessionKey ''s1'') = Some 16000
       \<and> redis_getFile example_codec 10000 db2 12000 ''s1'' ''f1'' = Inr (db2, None)"
    by blast
  with h1 h2 h3 h4 h5 h6 m show ?thesis by blast
qed

text \<open>
  C1. In the in-memory backend \<open>getFile\<close> after \<open>addFile\<close> returns the file with the
  name and the bytes that were given, for every payload. In the Redis backend an
  empty payload is stored as the empty base64 text, which \<open>getFile\<close> takes for a missing
  key: it returns null although the session is valid and the payload key is there.
\<close>

theorem redis_empty_payload_unreadable:
  assumes ty: "typed db" and t: "1000 \<le> ttl" and lt: "later - now < ttlSeconds ttl * 1000"
  shows "(\<exists>db'. redis_addFile C ttl db now fileId sid name [] = Inr (db', fileId)
           \<and> redis_isSessionValid db' later sid
           \<and> GET db' later (fileDataKey sid fileId) = Inr (Some [])
           \<and> redis_getFile C ttl db' later sid fileId = Inr (db', None))
     \<and> snd (getFile ttl (fst (addFile ttl st now fileId sid name data)) later
               sid (snd (addFile ttl st now fileId sid name data)))
         = Some \<lparr>file_id = fileId, file_name = name, file_data = data,
                 file_size = length data, file_createdAt = now\<rparr>"
proof -
  from lt have alive: "\<not> now + ttlSeconds ttl * 1000 < later" by simp
  from redis_addFile_keys [OF ty t, of C now fileId sid name "[]"]
  obtain db' fields h where r: "redis_addFile C ttl db now fileId sid name [] = Inr (db', fileId)"
    and k1: "db' (sessionKey sid) = Some (Hash fields, Some (now + ttlSeconds ttl * 1000))"
    and k2: "db' (filesKey sid) = Some (Hash h, Some (now + ttlSeconds ttl * 1000))"
    and k3: "db' (fileDataKey sid fileId) =
                 Some (Str (toBase64 []), Some (now + ttlSeconds ttl * 1000))"
    by blast
  have v: "redis_isSessionValid db' later sid"
    using alive k1 by (simp add: redis_isSessionValid_def EXISTS_def live_def)
  have g: "GET db' later (fileDataKey sid fileId) = Inr (Some [])"
    using alive k3 by (simp add: GET_def live_def)
  have m: "\<exists>x. HGET db' later (filesKey sid) fileId = Inr x"
    using alive k2 by (simp add: HGET_def live_def)
  have f: "redis_getFile C ttl db' later sid fileId = Inr (db', None)"
    using v g m by (auto simp: redis_getFile_def redis_isSessionValid_def split: option.splits)
  have "ttlSeconds ttl * 1000 \<le> ttl"
    by (simp add: ttlSeconds_def)
  with lt have "later - now < ttl" by simp
  from memory_roundtrip [OF this] r v g f show ?thesis by blast
qed

theorem redis_empty_payload_unreadable_witness:
  "typed Map.empty \<and> (1000::int) \<le> 86400000 \<and> (1::int) - 0 < ttlSeconds 86400000 * 1000
   \<and> (\<exists>db'. redis_addFile example_codec 86400000 Map.empty 0 ''f1'' ''s1'' ''empty.txt'' []
               = Inr (db', ''f1'')
           \<and> redis_isSessionValid db' 1 ''s1''
           \<and> redis_getFile example_codec 86400000 db' 1 ''s1'' ''f1'' = Inr (db', None))
   \<and> snd (getFile 86400000 (fst (addFile 86400000 Map.empty 0 ''f1'' ''s1'' ''empty.txt'' []))
           1 ''s1'' ''f1'')
       = Some \<lparr>file_id = ''f1'', file_name = ''empty.txt'', file_data = [],
               file_size = 0, file_createdAt = 0\<rparr>"
proof -
  have h1: "typed Map.empty" by (rule typed_empty)
  have h2: "(1000::int) \<le> 86400000" by simp
  have h3: "(1::int) - 0 < ttlSeconds 86400000 * 1000" by (simp add: ttlSeconds_def)
  from redis_empty_payload_unreadable [OF h1 h2 h3, of example_codec "''f1''" "''s1''"
         "''empty.txt''" Map.empty "[]"] h1 h3
  show ?thesis by (auto simp: addFile_result)
qed
section \<open>The session of an execution\<close>

lemma redis_createSession_valid:
  assumes "typed db" and "1000 \<le> ttl"
  shows "\<exists>db'. redis_createSession C ttl db now new_id = Inr (db', new_id)
           \<and> redis_isSessionValid db' now new_id"
proof -
  let ?k = "sessionKey new_id"
  let ?fvs = "[(''id'', new_id), (''createdAt'', toISOString C now),
               (''lastAccessedAt'', toISOString C now)]"
  from assms(2) have s: "0 < ttlSeconds ttl"
    by (simp add: ttlSeconds_def)
  from typed_hash_key [OF assms(1), of ?k now]
  have c: "live db now ?k = None \<or> (\<exists>h. live db now ?k = Some (Hash h))"
    by simp
  have "\<exists>db1 h. HSET db now ?k ?fvs = Inr db1 \<and> live db1 now ?k = Some (Hash h)"
    using c
  proof
    assume n: "live db now ?k = None"
    from HSET_absent [OF n, of ?fvs] show ?thesis
      by (simp add: live_update)
  next
    assume "\<exists>h. live db now ?k = Some (Hash h)"
    then obtain h where h: "live db now ?k = Some (Hash h)" ..
    from HSET_hash [OF h, of ?fvs] expiry_live [OF h] show ?thesis
      by (auto simp: live_update split: option.splits)
  qed
  then obtain db1 h where a: "HSET db now ?k ?fvs = Inr db1" and l: "live db1 now ?k = Some (Hash h)"
    by blast
  from EXPIRE_live [OF l s]
  have "live (EXPIRE db1 now ?k (ttlSeconds ttl)) now ?k = Some (Hash h)"
    using s by (simp add: live_update)
  with a show ?thesis
    by (simp add: redis_createSession_def redis_isSessionValid_def EXISTS_def)
qed

text \<open>
  C6. Whatever the HTTP call does, \<open>execute\<close> returns a response and does not throw: its
  session id is the first identifier drawn during the call, before the answer is
  classified, and names a session that is valid in the store the call leaves (the
  configured lifetime being positive). When the HTTP call fails, the response has an
  empty \<open>stdout\<close>, no files, and as \<open>stderr\<close> the non-empty message that \<open>handleError\<close>
  chooses for the failure; when it answers, \<open>stderr\<close> is the classification of the
  answer.

  \<open>execute\<close> is modelled on the in-memory store, whose operations do not throw. Of the
  Redis store the statement covers the \<open>createSession\<close> with which both
  \<open>translateResponse\<close> and \<open>handleError\<close> begin: it succeeds and leaves a valid session
  under the identifier it returns, when the keys hold values of the kinds the code writes
  and the lifetime is at least one second.
\<close>

theorem execute_returns_session:
  assumes "0 < ttl"
  shows "exec_session_id (snd (execute R backend ttl st t0 t1 gen lang code files args)) = gen 0
     \<and> isSessionValid ttl (fst (execute R backend ttl st t0 t1 gen lang code files args)) t1
          (exec_session_id (snd (execute R backend ttl st t0 t1 gen lang code files args)))
     \<and> (case backend (submission R ttl st t0 lang code files args) of
           Responded j0 \<Rightarrow>
             exec_stderr (snd (execute R backend ttl st t0 t1 gen lang code files args))
               = classify R j0
         | Failed error \<Rightarrow>
             snd (execute R backend ttl st t0 t1 gen lang code files args) =
               \<lparr>exec_stdout = [], exec_stderr = errorText error,
                exec_session_id = gen 0, exec_files = None\<rparr>
             \<and> errorText error \<noteq> [])
     \<and> (typed db \<and> 1000 \<le> ttl \<longrightarrow>
          (\<exists>db'. redis_createSession C ttl db t1 (gen 0) = Inr (db', gen 0)
             \<and> redis_isSessionValid db' t1 (gen 0)))"
proof -
  from execute_session [of R backend ttl st t0 t1 gen lang code files args]
  obtain s where i: "exec_session_id (snd (execute R backend ttl st t0 t1 gen lang code files args)) = gen 0"
    and s: "fst (execute R backend ttl st t0 t1 gen lang code files args) (gen 0) = Some s"
    and l: "session_lastAccessedAt s = t1"
    by blast
  from s l assms
  have v: "isSessionValid ttl (fst (execute R backend ttl st t0 t1 gen lang code files args)) t1 (gen 0)"
    by (simp add: isSessionValid_def)
  have e: "case backend (submission R ttl st t0 lang code files args) of
           Responded j0 \<Rightarrow>
             exec_stderr (snd (execute R backend ttl st t0 t1 gen lang code files args))
               = classify R j0
         | Failed error \<Rightarrow>
             snd (execute R backend ttl st t0 t1 gen lang code files args) =
               \<lparr>exec_stdout = [], exec_stderr = errorText error,
                exec_session_id = gen 0, exec_files = None\<rparr>
             \<and> errorText error \<noteq> []"
    by (simp add: execute_cases translateResponse_stderr handleError_result errorText_nonempty
          split: Outcome.splits)
  have r: "typed db \<and> 1000 \<le> ttl \<longrightarrow>
          (\<exists>db'. redis_createSession C ttl db t1 (gen 0) = Inr (db', gen 0)
             \<and> redis_isSessionValid db' t1 (gen 0))"
    using redis_createSession_valid [of db ttl C t1 "gen 0"] by blast
  from i v e r show ?thesis by simp
qed

text \<open>
  A refused connection, a timeout, a network failure without an error code of these,
  a thrown value that is no \<open>Error\<close>, and non-2xx answers: with an \<open>error\<close> text, with an
  empty \<open>error\<close> and a \<open>message\<close> (the message is shown), with a body that has neither,
  and without a body.
\<close>

theorem execute_returns_session_witness:
  "(0::int) < 86400000
   \<and> snd (execute ascii_runtime example_refused 86400000 Map.empty 0 1 example_ids
        lang_py ''print(1)'' [] []) =
       \<lparr>exec_stdout = [], exec_stderr = ''Judge0 service unavailable'',
        exec_session_id = ''id0'', exec_files = None\<rparr>
   \<and> isSessionValid 86400000
        (fst (execute ascii_runtime example_refused 86400000 Map.empty 0 1
               example_ids lang_py ''print(1)'' [] [])) 1 ''id0''
   \<and> snd (execute ascii_runtime example_timeout 86400000 Map.empty 0 1 example_ids
        lang_py ''print(1)'' [] []) =
       \<lparr>exec_stdout = [], exec_stderr = ''Execution timed out'',
        exec_session_id = ''id0'', exec_files = None\<rparr>
   \<and> snd (execute ascii_runtime example_network 86400000 Map.empty 0 1 example_ids
        lang_py ''print(1)'' [] []) =
       \<lparr>exec_stdout = [], exec_stderr = ''Execution failed: Network Error'',
        exec_session_id = ''id0'', exec_files = None\<rparr>
   \<and> snd (execute ascii_runtime example_thrown 86400000 Map.empty 0 1 example_ids
        lang_py ''print(1)'' [] []) =
       \<lparr>exec_stdout = [], exec_stderr = ''Execution failed: Unknown error'',
        exec_session_id = ''id0'', exec_files = None\<rparr>
   \<and> snd (execute ascii_runtime example_overloaded 86400000 Map.empty 0 1 example_ids
        lang_py ''print(1)'' [] []) =
       \<lparr>exec_stdout = [], exec_stderr = ''Judge0 error (503): queue is full'',
        exec_session_id = ''id0'', exec_files = None\<rparr>
   \<and> snd (execute ascii_runtime example_empty_error 86400000 Map.empty 0 1 example_ids
        lang_py ''print(1)'' [] []) =
       \<lparr>exec_stdout = [], exec_stderr = ''Judge0 error (500): worker died'',
        exec_session_id = ''id0'', exec_files = None\<rparr>
   \<and> snd (execute ascii_runtime example_no_detail 86400000 Map.empty 0 1 example_ids
        lang_py ''print(1)'' [] []) =
       \<lparr>exec_stdout = [], exec_stderr = ''Judge0 error (502)'',
        exec_session_id = ''id0'', exec_files = None\<rparr>
   \<and> snd (execute ascii_runtime example_no_body 86400000 Map.empty 0 1 example_ids
        lang_py ''print(1)'' [] []) =
       \<lparr>exec_stdout = [], exec_stderr = ''Judge0 error (504)'',
        exec_session_id = ''id0'', exec_files = None\<rparr>
   \<and> exec_session_id (snd (execute ascii_runtime example_echo 86400000 Map.empty 0 1 example_ids
        lang_py ''print(1)'' [] [])) = ''id0''
   \<and> isSessionValid 86400000
        (fst (execute ascii_runtime example_echo 86400000 Map.empty 0 1
               example_ids lang_py ''print(1)'' [] [])) 1 ''id0''
   \<and> exec_stderr (snd (execute ascii_runtime example_echo 86400000 Map.empty 0 1 example_ids
        lang_py ''print(1)'' [] [])) = []
   \<and> typed Map.empty \<and> (1000::int) \<le> 86400000
   \<and> (\<exists>db'. redis_createSession example_codec 86400000 Map.empty 1 ''id0'' = Inr (db', ''id0'')
          \<and> redis_isSessionValid db' 1 ''id0'')"
proof -
  have p: "(0::int) < 86400000" by simp
  have g: "example_ids 0 = ''id0''"
    by (simp add: example_ids_def digits.simps char_of_eq_iff)
  have d: "digits 503 = ''503''" "digits 500 = ''500''" "digits 502 = ''502''" "digits 504 = ''504''"
    by (simp_all add: digits.simps char_of_eq_iff)
  have c: "classify ascii_runtime
             \<lparr>j0_stdout = Some ''RllJOiBqdWRnZTAtYnJpZGdlIHJlcGxhY2VzIC9tbnQvZGF0YSB0byAuLwoK'',
              j0_stderr = None, compile_output = None, message = None,
              status = Some \<lparr>status_id = 3, description = ''Accepted''\<rparr>,
              post_execution_filesystem = None\<rparr> = []"
    by (simp add: classify_def truthy_def)
  note w = execute_returns_session [OF p, of ascii_runtime _ Map.empty 0 1
             example_ids lang_py "''print(1)''" "[]" "[]" Map.empty example_codec]
  from w [of example_refused] w [of example_timeout] w [of example_network]
    w [of example_thrown] w [of example_overloaded] w [of example_empty_error]
    w [of example_no_detail] w [of example_no_body] w [of example_echo] g d c typed_empty
  show ?thesis
    by (auto simp: example_refused_def example_timeout_def example_network_def
          example_thrown_def example_overloaded_def example_empty_error_def
          example_no_detail_def example_no_body_def example_echo_def errorText_def
          truthyValue_def jsString_def)
qed

end
